theory Spec2Isabelle
  imports Main
begin

section \<open>Errors and character classes\<close>

text \<open>
  Every way the replay can stop abnormally is a value of \<open>error\<close>:
  \<^item> \<open>RuntimeError\<close>: a \<^verbatim>\<open>throw std::runtime_error\<close> of the scanner, the parser or
    the move factory;
  \<^item> \<open>AssertionFailed\<close>: a failed \<^verbatim>\<open>INTERNAL_ASSERT\<close>;
  \<^item> \<open>UndefinedBehaviour\<close>: the C++ reads outside an object (dereferencing
    \<^verbatim>\<open>rend(val)\<close>, indexing the board outside 0..7, reading an empty optional).
\<close>

datatype error = RuntimeError | AssertionFailed | UndefinedBehaviour

text \<open>
  Modelled from the spec: \<^verbatim>\<open>INTERNAL_ASSERT\<close> is declared in common.h, which is not
  among the sources. The spec says internal assertions "are treated as programming
  errors and abort the process", so a failed assertion is the error
  \<open>AssertionFailed\<close> and a passed one continues.
\<close>

definition INTERNAL_ASSERT :: "bool \<Rightarrow> (error + 'a) \<Rightarrow> (error + 'a)" where
  "INTERNAL_ASSERT cond rest = (if cond then rest else Inl AssertionFailed)"

text \<open>The character classes of \<^verbatim>\<open><cctype>\<close> in the "C" locale, on the byte value.\<close>

definition code :: "char \<Rightarrow> nat" where
  "code c = of_char c"

definition isdigit :: "char \<Rightarrow> bool" where
  "isdigit c = (48 \<le> code c \<and> code c \<le> 57)"

definition isalpha :: "char \<Rightarrow> bool" where
  "isalpha c = ((65 \<le> code c \<and> code c \<le> 90) \<or> (97 \<le> code c \<and> code c \<le> 122))"

definition isprint :: "char \<Rightarrow> bool" where
  "isprint c = (32 \<le> code c \<and> code c \<le> 126)"

section \<open>Lexical atoms (tokens.h)\<close>

datatype AcceptResult = CONSUMED | TERMINATED_CONSUMED | TERMINATED_NONCONSUMED | INVALID

text \<open>
  \<^verbatim>\<open>StringToken::accept\<close>: the token's only field is \<^verbatim>\<open>value_\<close>; the model takes it
  and returns the outcome with the updated value. \<^verbatim>\<open>value_.back()\<close> is only read
  behind a test that the value is not empty.
\<close>

definition StringToken_accept :: "string \<Rightarrow> char \<Rightarrow> AcceptResult \<times> string" where
  "StringToken_accept val c =
     (if c = CHR 0x22 then
        (if val = [] then (CONSUMED, val)
         else if last val = CHR 0x5C then (CONSUMED, butlast val @ [c])
         else (TERMINATED_CONSUMED, val))
      else if c = CHR 0x5C then
        (if val = [] \<or> last val = CHR 0x5C then (CONSUMED, val @ [c])
         else (CONSUMED, val))
      else if isprint c then
        (if val \<noteq> [] \<and> last val = CHR 0x5C then (INVALID, val)
         else (CONSUMED, val @ [c]))
      else (INVALID, val))"

definition PeriodToken_accept :: "char \<Rightarrow> AcceptResult" where
  "PeriodToken_accept c = (if c = CHR ''.'' then TERMINATED_CONSUMED else TERMINATED_NONCONSUMED)"

definition BraceComment_accept :: "char \<Rightarrow> AcceptResult" where
  "BraceComment_accept c = (if c = CHR ''}'' then TERMINATED_CONSUMED else CONSUMED)"

definition LineComment_accept :: "char \<Rightarrow> AcceptResult" where
  "LineComment_accept c = (if c = CHR 0x0A then TERMINATED_CONSUMED else CONSUMED)"

definition EscapeToken_accept :: "char \<Rightarrow> AcceptResult" where
  "EscapeToken_accept c = (if c = CHR 0x0A then TERMINATED_CONSUMED else CONSUMED)"

text \<open>\<^verbatim>\<open>NumericGlyphToken\<close> carries the flag \<^verbatim>\<open>first\<close>.\<close>

definition NumericGlyphToken_accept :: "bool \<Rightarrow> char \<Rightarrow> AcceptResult \<times> bool" where
  "NumericGlyphToken_accept first c =
     (if isdigit c \<or> (first \<and> c = CHR ''$'') then (CONSUMED, False)
      else (TERMINATED_NONCONSUMED, first))"

definition is_symbol_char :: "char \<Rightarrow> bool" where
  "is_symbol_char c =
     (isdigit c \<or> isalpha c \<or> c = CHR '':'' \<or> c = CHR ''-'' \<or> c = CHR ''_'' \<or> c = CHR ''+'' \<or>
      c = CHR ''='' \<or> c = CHR ''#'' \<or> c = CHR ''/'')"

text \<open>\<^verbatim>\<open>SymbolToken\<close> carries \<^verbatim>\<open>value_\<close> and \<^verbatim>\<open>number_only_\<close>.\<close>

definition SymbolToken_accept :: "string \<Rightarrow> bool \<Rightarrow> char \<Rightarrow> AcceptResult \<times> string \<times> bool" where
  "SymbolToken_accept val number_only c =
     (if is_symbol_char c
      then (CONSUMED, val @ [c], (if \<not> isdigit c then False else number_only))
      else (TERMINATED_NONCONSUMED, val, number_only))"

text \<open>The variant \<^verbatim>\<open>Token\<close>; \<open>Monostate\<close> is \<^verbatim>\<open>std::monostate\<close>.\<close>

datatype Token =
    Monostate
  | StringToken string
  | PeriodToken
  | AsterkixToken
  | LeftBraceToken
  | RightBraceToken
  | LeftParenthesisToken
  | RightParenthesisToken
  | NumericAnnotationToken
  | SymbolToken string bool
  | IntegerToken string
  | BraceComment
  | LineComment
  | EscapeToken
  | NumericGlyphToken bool

text \<open>
  \<open>accept t c\<close> is \<^verbatim>\<open>t.accept(c)\<close> for the token held by the variant.
  \<^verbatim>\<open>IntegerToken::accept\<close> throws; the scanner never visits \<open>Monostate\<close> with
  \<^verbatim>\<open>accept\<close> (its visitor returns true for it, see \<open>scan_step\<close>).
\<close>

fun accept :: "Token \<Rightarrow> char \<Rightarrow> error + (AcceptResult \<times> Token)" where
  "accept (StringToken v) c = (case StringToken_accept v c of (r, v') \<Rightarrow> Inr (r, StringToken v'))"
| "accept PeriodToken c = Inr (PeriodToken_accept c, PeriodToken)"
| "accept AsterkixToken c = Inr (TERMINATED_CONSUMED, AsterkixToken)"
| "accept LeftBraceToken c = Inr (TERMINATED_CONSUMED, LeftBraceToken)"
| "accept RightBraceToken c = Inr (TERMINATED_CONSUMED, RightBraceToken)"
| "accept LeftParenthesisToken c = Inr (TERMINATED_CONSUMED, LeftParenthesisToken)"
| "accept RightParenthesisToken c = Inr (TERMINATED_CONSUMED, RightParenthesisToken)"
| "accept NumericAnnotationToken c = Inr (TERMINATED_CONSUMED, NumericAnnotationToken)"
| "accept (SymbolToken v n) c =
     (case SymbolToken_accept v n c of (r, v', n') \<Rightarrow> Inr (r, SymbolToken v' n'))"
| "accept (IntegerToken v) c = Inl RuntimeError"
| "accept BraceComment c = Inr (BraceComment_accept c, BraceComment)"
| "accept LineComment c = Inr (LineComment_accept c, LineComment)"
| "accept EscapeToken c = Inr (EscapeToken_accept c, EscapeToken)"
| "accept (NumericGlyphToken first) c =
     (case NumericGlyphToken_accept first c of (r, first') \<Rightarrow> Inr (r, NumericGlyphToken first'))"
| "accept Monostate c = Inl AssertionFailed"

section \<open>The scanner (scanner.h)\<close>

text \<open>
  The state that survives between two calls of \<^verbatim>\<open>scan_token\<close>: the unread bytes of
  the stream \<^verbatim>\<open>file_\<close>, the last byte read \<^verbatim>\<open>c_\<close>, and the iterator's flag
  \<^verbatim>\<open>repeat_\<close>. The stream reports end of file only after a read has failed, and the
  iteration stops at that very moment, so \<^verbatim>\<open>file_.eof()\<close> is never true when the
  loop condition is evaluated with \<^verbatim>\<open>repeat_\<close> set.
\<close>

record Scan =
  stream :: string
  last_c :: char
  repeat :: bool

definition is_token_separator :: "char \<Rightarrow> bool" where
  "is_token_separator c = (c = CHR '' '' \<or> c = CHR 0x0A \<or> c = CHR 0x09)"

text \<open>The \<^verbatim>\<open>switch\<close> that opens a new token on its first character.\<close>

definition new_token :: "char \<Rightarrow> error + Token" where
  "new_token c =
     (if c = CHR ''['' then Inr LeftBraceToken
      else if c = CHR '']'' then Inr RightBraceToken
      else if c = CHR ''('' then Inr LeftParenthesisToken
      else if c = CHR '')'' then Inr RightParenthesisToken
      else if c = CHR 0x22 then Inr (StringToken [])
      else if c = CHR ''.'' then Inr PeriodToken
      else if c = CHR ''*'' then Inr AsterkixToken
      else if c = CHR ''{'' then Inr BraceComment
      else if c = CHR ''$'' then Inr (NumericGlyphToken True)
      else if c = CHR '';'' then Inr LineComment
      else if c = CHR ''%'' then Inr EscapeToken
      else if isdigit c \<or> isalpha c then Inr (SymbolToken [] True)
      else Inl RuntimeError)"

text \<open>
  One pass through the body of the \<^verbatim>\<open>while\<close> loop on the character \<open>ch\<close>:
  \<^item> \<open>Skip\<close>: a separator before a token (\<^verbatim>\<open>continue\<close>);
  \<^item> \<open>Open t\<close>: the character was consumed and the token stays open;
  \<^item> \<open>Terminated t r\<close>: \<^verbatim>\<open>token_terminated\<close> became true, \<open>t\<close> is
    \<^verbatim>\<open>current_token_\<close> and \<open>r\<close> the new value of \<^verbatim>\<open>repeat_\<close>.
\<close>

datatype body_result = Skip | Open Token | Terminated Token bool

definition visit_accept :: "Token \<Rightarrow> bool \<Rightarrow> char \<Rightarrow> error + body_result" where
  "visit_accept t rep ch =
     (case t of
        Monostate \<Rightarrow> Inr (Terminated Monostate rep)
      | _ \<Rightarrow>
        (case accept t ch of
           Inl e \<Rightarrow> Inl e
         | Inr (INVALID, t') \<Rightarrow> Inl RuntimeError
         | Inr (TERMINATED_CONSUMED, t') \<Rightarrow> Inr (Terminated t' False)
         | Inr (TERMINATED_NONCONSUMED, t') \<Rightarrow>
             Inr (Terminated (case t' of SymbolToken v True \<Rightarrow> IntegerToken v | _ \<Rightarrow> t') True)
         | Inr (CONSUMED, t') \<Rightarrow> Inr (Open t')))"

definition scan_body :: "Token \<Rightarrow> bool \<Rightarrow> bool \<Rightarrow> char \<Rightarrow> error + body_result" where
  "scan_body tok expecting_new_token rep ch =
     (if expecting_new_token \<and> is_token_separator ch then Inr Skip
      else if expecting_new_token then
        (case new_token ch of Inl e \<Rightarrow> Inl e | Inr t \<Rightarrow> visit_accept t rep ch)
      else visit_accept tok rep ch)"

text \<open>
  The iterations of the loop that read from the stream (\<^verbatim>\<open>repeat_\<close> is false):
  when the read fails the loop ends with \<^verbatim>\<open>token_terminated\<close> false, and
  \<^verbatim>\<open>scanner_\<close> becomes null: the iteration is over (\<open>None\<close>).
\<close>

fun scan_chars :: "Token \<Rightarrow> bool \<Rightarrow> string \<Rightarrow> error + (Token \<times> Scan) option" where
  "scan_chars tok expecting_new_token [] = Inr None"
| "scan_chars tok expecting_new_token (ch # rest) =
     (case scan_body tok expecting_new_token False ch of
        Inl e \<Rightarrow> Inl e
      | Inr Skip \<Rightarrow> scan_chars tok True rest
      | Inr (Open t) \<Rightarrow> scan_chars t False rest
      | Inr (Terminated t r) \<Rightarrow> Inr (Some (t, \<lparr>stream = rest, last_c = ch, repeat = r\<rparr>)))"

text \<open>
  \<^verbatim>\<open>scan_token\<close>: with \<^verbatim>\<open>repeat_\<close> set the first iteration works on \<^verbatim>\<open>c_\<close>
  without reading.
\<close>

definition scan_token :: "Scan \<Rightarrow> error + (Token \<times> Scan) option" where
  "scan_token s =
     (if repeat s then
        (case scan_body Monostate True True (last_c s) of
           Inl e \<Rightarrow> Inl e
         | Inr Skip \<Rightarrow> scan_chars Monostate True (stream s)
         | Inr (Open t) \<Rightarrow> scan_chars t False (stream s)
         | Inr (Terminated t r) \<Rightarrow> Inr (Some (t, s\<lparr>repeat := r\<rparr>)))
      else scan_chars Monostate True (stream s))"

definition TokenScanner :: "string \<Rightarrow> Scan" where
  "TokenScanner text = \<lparr>stream = text, last_c = CHR 0x00, repeat = False\<rparr>"

definition scan_measure :: "Scan \<Rightarrow> nat" where
  "scan_measure s = 2 * length (stream s) + (if repeat s then 1 else 0)"

lemma scan_chars_measure:
  "scan_chars tok e cs = Inr (Some (t, s')) \<Longrightarrow> scan_measure s' < 2 * length cs"
proof (induction cs arbitrary: tok e)
  case Nil
  then show ?case by simp
next
  case (Cons ch rest)
  show ?case
  proof (cases "scan_body tok e False ch")
    case (Inl a)
    with Cons.prems show ?thesis by simp
  next
    case (Inr res)
    show ?thesis
    proof (cases res)
      case Skip
      with Inr Cons.prems have "scan_chars tok True rest = Inr (Some (t, s'))" by simp
      from Cons.IH[OF this] show ?thesis by simp
    next
      case (Open t2)
      with Inr Cons.prems have "scan_chars t2 False rest = Inr (Some (t, s'))" by simp
      from Cons.IH[OF this] show ?thesis by simp
    next
      case (Terminated t2 r)
      with Inr Cons.prems show ?thesis by (auto simp: scan_measure_def)
    qed
  qed
qed

lemma new_token_first_char:
  "new_token ch = Inr t \<Longrightarrow> visit_accept t rep ch = Inr (Terminated t2 r) \<Longrightarrow> \<not> r"
  by (auto simp: new_token_def visit_accept_def PeriodToken_accept_def StringToken_accept_def
      BraceComment_accept_def LineComment_accept_def EscapeToken_accept_def
      NumericGlyphToken_accept_def SymbolToken_accept_def is_symbol_char_def
      split: if_splits)

lemma scan_token_measure:
  assumes "scan_token s = Inr (Some (t, s'))"
  shows "scan_measure s' < scan_measure s"
proof (cases "repeat s")
  case False
  with assms have "scan_chars Monostate True (stream s) = Inr (Some (t, s'))"
    by (simp add: scan_token_def)
  from scan_chars_measure[OF this] show ?thesis by (simp add: scan_measure_def)
next
  case True
  show ?thesis
  proof (cases "scan_body Monostate True True (last_c s)")
    case (Inl a)
    with True assms show ?thesis by (simp add: scan_token_def)
  next
    case (Inr res)
    show ?thesis
    proof (cases res)
      case Skip
      with Inr True assms have "scan_chars Monostate True (stream s) = Inr (Some (t, s'))"
        by (simp add: scan_token_def)
      from scan_chars_measure[OF this] show ?thesis by (simp add: scan_measure_def)
    next
      case (Open t2)
      with Inr True assms have "scan_chars t2 False (stream s) = Inr (Some (t, s'))"
        by (simp add: scan_token_def)
      from scan_chars_measure[OF this] show ?thesis by (simp add: scan_measure_def)
    next
      case (Terminated t2 r)
      with Inr True assms have s': "s' = s\<lparr>repeat := r\<rparr>" by (simp add: scan_token_def)
      from Inr Terminated have "\<not> r"
        by (auto simp: scan_body_def split: if_splits sum.splits dest: new_token_first_char)
      with s' True show ?thesis by (simp add: scan_measure_def)
    qed
  qed
qed

text \<open>
  The whole range of the scanner, as the \<^verbatim>\<open>for\<close> loop over it sees it when no
  consumer stops early: every token in order, or the first error.
\<close>

function tokens :: "Scan \<Rightarrow> error + Token list" where
  "tokens s =
     (case scan_token s of
        Inl e \<Rightarrow> Inl e
      | Inr None \<Rightarrow> Inr []
      | Inr (Some (t, s')) \<Rightarrow> (case tokens s' of Inl e \<Rightarrow> Inl e | Inr ts \<Rightarrow> Inr (t # ts)))"
  by pat_completeness auto
termination
  by (relation "measure scan_measure") (auto dest: scan_token_measure)

section \<open>Move descriptors (moves.h)\<close>

datatype TerminationMarker = MANUAL | WHITE_WON | BLAKC_WON | EVEN

text \<open>
  \<^verbatim>\<open>Coordinates\<close> holds two optionals, \<^verbatim>\<open>x\<close> (the row) and \<^verbatim>\<open>y\<close> (the column).
  The names of the fields of \<^verbatim>\<open>NextMove\<close> carry the prefix \<open>nm_\<close>, because
  \<^verbatim>\<open>piece\<close> is also a field of a board cell and \<^verbatim>\<open>src\<close>, \<^verbatim>\<open>dst\<close> and
  \<^verbatim>\<open>capture\<close> name parameters of the board's functions.
\<close>

record Coordinates =
  cx :: "int option"
  cy :: "int option"

record NextMove =
  nm_piece :: char
  nm_is_white_move :: bool
  nm_capture :: bool
  nm_check :: bool
  nm_checkmate :: bool
  nm_src :: Coordinates
  nm_dst :: Coordinates
  nm_promote_piece :: "char option"
  nm_orig_token :: string

datatype Moves =
    KingCastling bool
  | QueenCastling bool
  | Next NextMove
  | Finish TerminationMarker
  | Ignore

definition all_possible_pieces :: "char set" where
  "all_possible_pieces = {CHR ''P'', CHR ''N'', CHR ''B'', CHR ''R'', CHR ''Q'', CHR ''K''}"

text \<open>
  Modelled from the spec: the helpers \<^verbatim>\<open>r\<close> and \<^verbatim>\<open>f\<close> are declared in common.h,
  which is not among the sources. The spec says "Rank digit d maps to row index
  '8' - d" and "File letter l maps to column index l - 'a'", and tests.cpp expects
  \<^verbatim>\<open>e4\<close> at row 4, column 4 and \<^verbatim>\<open>h1\<close> at row 7, column 7.
\<close>

definition r :: "char \<Rightarrow> int" where
  "r c = int (code CHR ''8'') - int (code c)"

definition f :: "char \<Rightarrow> int" where
  "f c = int (code c) - int (code CHR ''a'')"

section \<open>The move factory (parser.h)\<close>

text \<open>
  \<^verbatim>\<open>MoveFactory::operator()\<close> reads the symbol from its last character to its first
  through the reverse iterator \<^verbatim>\<open>c\<close>. The model passes the characters still ahead of
  the iterator, last character of the symbol first; the list is empty when
  \<^verbatim>\<open>c == rend(val)\<close>. Dereferencing \<^verbatim>\<open>c\<close> there is undefined in C++.
\<close>

definition is_rank_char :: "char \<Rightarrow> bool" where
  "is_rank_char c = (code CHR ''1'' \<le> code c \<and> code CHR ''8'' \<ge> code c)"

definition is_file_char :: "char \<Rightarrow> bool" where
  "is_file_char c = (code CHR ''a'' \<le> code c \<and> code CHR ''h'' \<ge> code c)"

text \<open>The loop \<^verbatim>\<open>for (size_t i = 1; i <= 2; ++i)\<close> over the suffix flags.\<close>

fun parse_flags :: "nat \<Rightarrow> NextMove \<Rightarrow> string \<Rightarrow> error + (NextMove \<times> string)" where
  "parse_flags 0 m cs = Inr (m, cs)"
| "parse_flags (Suc n) m [] = Inl RuntimeError"
| "parse_flags (Suc n) m (c # cs) =
     (if c = CHR ''#'' then parse_flags n (m\<lparr>nm_checkmate := True\<rparr>) cs
      else if c = CHR ''+'' then parse_flags n (m\<lparr>nm_check := True\<rparr>) cs
      else if c = CHR '':'' then parse_flags n (m\<lparr>nm_capture := True\<rparr>) cs
      else Inr (m, c # cs))"

text \<open>The optional closing parenthesis of a promotion.\<close>

definition parse_close_paren :: "string \<Rightarrow> error + string" where
  "parse_close_paren cs =
     (case cs of
        [] \<Rightarrow> Inl UndefinedBehaviour
      | c # cs' \<Rightarrow>
          if c = CHR '')'' then (if cs' = [] then Inl RuntimeError else Inr cs') else Inr cs)"

text \<open>The promotion piece and its separator.\<close>

definition parse_promotion :: "NextMove \<Rightarrow> string \<Rightarrow> error + (NextMove \<times> string)" where
  "parse_promotion m cs =
     (case cs of
        [] \<Rightarrow> Inl UndefinedBehaviour
      | c # cs' \<Rightarrow>
          if c \<in> all_possible_pieces then
            (case cs' of
               [] \<Rightarrow> Inl RuntimeError
             | c' # cs'' \<Rightarrow>
                 if c' = CHR ''='' \<or> c' = CHR ''/'' \<or> c' = CHR ''(''
                 then Inr (m\<lparr>nm_promote_piece := Some c\<rparr>, cs'')
                 else Inr (m\<lparr>nm_promote_piece := Some c\<rparr>, cs'))
          else Inr (m, cs))"

text \<open>The destination: an optional rank, then an optional file, each behind \<^verbatim>\<open>has_more_char()\<close>.\<close>

definition parse_rank :: "Coordinates \<Rightarrow> string \<Rightarrow> Coordinates \<times> string" where
  "parse_rank co cs =
     (case cs of
        [] \<Rightarrow> (co, cs)
      | c # cs' \<Rightarrow> if is_rank_char c then (co\<lparr>cx := Some (r c)\<rparr>, cs') else (co, cs))"

definition parse_file :: "Coordinates \<Rightarrow> string \<Rightarrow> Coordinates \<times> string" where
  "parse_file co cs =
     (case cs of
        [] \<Rightarrow> (co, cs)
      | c # cs' \<Rightarrow> if is_file_char c then (co\<lparr>cy := Some (f c)\<rparr>, cs') else (co, cs))"

definition parse_dst :: "NextMove \<Rightarrow> string \<Rightarrow> NextMove \<times> string" where
  "parse_dst m cs =
     (case parse_rank (nm_dst m) cs of (co, cs') \<Rightarrow>
        (case parse_file co cs' of (co', cs'') \<Rightarrow> (m\<lparr>nm_dst := co'\<rparr>, cs'')))"

definition parse_capture :: "NextMove \<Rightarrow> string \<Rightarrow> NextMove \<times> string" where
  "parse_capture m cs =
     (case cs of
        [] \<Rightarrow> (m, cs)
      | c # cs' \<Rightarrow>
          if c = CHR ''x'' \<or> c = CHR '':'' then (m\<lparr>nm_capture := True\<rparr>, cs') else (m, cs))"

text \<open>
  The source hint: the test for the rank dereferences \<^verbatim>\<open>c\<close> without
  \<^verbatim>\<open>has_more_char()\<close>, which is undefined when the capture sign was the first
  character of the symbol.
\<close>

definition parse_src :: "NextMove \<Rightarrow> string \<Rightarrow> error + (NextMove \<times> string)" where
  "parse_src m cs =
     (case cs of
        [] \<Rightarrow> Inl UndefinedBehaviour
      | c # cs' \<Rightarrow>
          (case parse_rank (nm_src m) cs of (co, cs1) \<Rightarrow>
             (case parse_file co cs1 of (co', cs2) \<Rightarrow> Inr (m\<lparr>nm_src := co'\<rparr>, cs2))))"

definition parse_piece :: "NextMove \<Rightarrow> string \<Rightarrow> error + NextMove" where
  "parse_piece m cs =
     (case cs of
        [] \<Rightarrow> Inr (m\<lparr>nm_piece := CHR ''P''\<rparr>)
      | c # cs' \<Rightarrow>
          if c \<in> all_possible_pieces
          then (if cs' \<noteq> [] then Inl RuntimeError else Inr (m\<lparr>nm_piece := c\<rparr>))
          else Inl RuntimeError)"

definition new_NextMove :: "string \<Rightarrow> bool \<Rightarrow> NextMove" where
  "new_NextMove val white_turn =
     \<lparr>nm_piece = CHR 0x00, nm_is_white_move = white_turn, nm_capture = False, nm_check = False,
      nm_checkmate = False, nm_src = \<lparr>cx = None, cy = None\<rparr>, nm_dst = \<lparr>cx = None, cy = None\<rparr>,
      nm_promote_piece = None, nm_orig_token = val\<rparr>"

definition regular_move :: "string \<Rightarrow> bool \<Rightarrow> error + Moves" where
  "regular_move val white_turn =
     (case parse_flags 2 (new_NextMove val white_turn) (rev val) of
        Inl e \<Rightarrow> Inl e
      | Inr (m1, cs1) \<Rightarrow>
     (case parse_close_paren cs1 of
        Inl e \<Rightarrow> Inl e
      | Inr cs2 \<Rightarrow>
     (case parse_promotion m1 cs2 of
        Inl e \<Rightarrow> Inl e
      | Inr (m3, cs3) \<Rightarrow>
     (case parse_dst m3 cs3 of (m4, cs4) \<Rightarrow>
        if cs4 = [] then Inr (Next (m4\<lparr>nm_piece := CHR ''P''\<rparr>))
        else
     (case parse_capture m4 cs4 of (m5, cs5) \<Rightarrow>
     (case parse_src m5 cs5 of
        Inl e \<Rightarrow> Inl e
      | Inr (m6, cs6) \<Rightarrow>
     (case parse_piece m6 cs6 of
        Inl e \<Rightarrow> Inl e
      | Inr m7 \<Rightarrow> Inr (Next m7))))))))"

definition MoveFactory :: "string \<Rightarrow> bool \<Rightarrow> error + Moves" where
  "MoveFactory val white_turn =
     (if val = ''e'' \<or> val = ''p'' then Inr Ignore
      else if val = ''O-O'' then Inr (KingCastling white_turn)
      else if val = ''O-O-O'' then Inr (QueenCastling white_turn)
      else if val = ''1-0'' then Inr (Finish WHITE_WON)
      else if val = ''0-1'' then Inr (Finish BLAKC_WON)
      else if val = ''1/2-1/2'' then Inr (Finish EVEN)
      else regular_move val white_turn)"

section \<open>The grammar driver (parser.h)\<close>

datatype State =
    Init
  | ParsingLeftBracket
  | ParsingHeaderName
  | ParsingHeaderValue
  | ParsingRightBracket
  | ParsingMove
  | ParsingNumberIndication
  | ParsingPeriod
  | ParsingLeftParenthesis
  | ParsingRightParenthesis
  | ParsingComment
  | Finished

text \<open>
  The transitions are keyed by the static member \<^verbatim>\<open>Event\<close> of each token type, the
  \<^verbatim>\<open>std::type_index\<close> of the type: one event per alternative of the variant.
\<close>

datatype Event =
    StringEvent
  | PeriodEvent
  | AsterkixEvent
  | LeftBraceEvent
  | RightBraceEvent
  | LeftParenthesisEvent
  | RightParenthesisEvent
  | NumericAnnotationEvent
  | SymbolEvent
  | IntegerEvent
  | BraceCommentEvent
  | LineCommentEvent
  | EscapeEvent
  | NumericGlyphEvent

text \<open>\<open>event\<close> of \<open>Monostate\<close> is never asked for: the visitor handles it first.\<close>

fun event :: "Token \<Rightarrow> Event" where
  "event (StringToken v) = StringEvent"
| "event PeriodToken = PeriodEvent"
| "event AsterkixToken = AsterkixEvent"
| "event LeftBraceToken = LeftBraceEvent"
| "event RightBraceToken = RightBraceEvent"
| "event LeftParenthesisToken = LeftParenthesisEvent"
| "event RightParenthesisToken = RightParenthesisEvent"
| "event NumericAnnotationToken = NumericAnnotationEvent"
| "event (SymbolToken v n) = SymbolEvent"
| "event (IntegerToken v) = IntegerEvent"
| "event BraceComment = BraceCommentEvent"
| "event LineComment = LineCommentEvent"
| "event EscapeToken = EscapeEvent"
| "event (NumericGlyphToken first) = NumericGlyphEvent"
| "event Monostate = NumericAnnotationEvent"

text \<open>The member \<^verbatim>\<open>value_\<close> of the token types that have one (\<^verbatim>\<open>requires { t.value_; }\<close>).\<close>

fun token_value :: "Token \<Rightarrow> string option" where
  "token_value (StringToken v) = Some v"
| "token_value (SymbolToken v n) = Some v"
| "token_value (IntegerToken v) = Some v"
| "token_value t = None"

text \<open>
  \<^verbatim>\<open>automaton_\<close> as the constructor of \<^verbatim>\<open>PGNParser\<close> fills it: the transitions of
  each state. \<^verbatim>\<open>Finished\<close> gets no entry in the constructor; \<^verbatim>\<open>automaton_[state_]\<close>
  creates an empty one when it is looked up.
\<close>

fun transitions :: "State \<Rightarrow> (Event \<times> State) list" where
  "transitions Init =
     [(LeftBraceEvent, ParsingLeftBracket), (IntegerEvent, ParsingNumberIndication),
      (SymbolEvent, ParsingMove), (AsterkixEvent, Finished)]"
| "transitions ParsingLeftBracket = [(SymbolEvent, ParsingHeaderName)]"
| "transitions ParsingHeaderName =
     [(StringEvent, ParsingHeaderValue), (AsterkixEvent, Finished)]"
| "transitions ParsingHeaderValue =
     [(RightBraceEvent, ParsingRightBracket), (AsterkixEvent, Finished)]"
| "transitions ParsingRightBracket =
     [(LeftBraceEvent, ParsingLeftBracket), (IntegerEvent, ParsingNumberIndication),
      (SymbolEvent, ParsingMove), (AsterkixEvent, Finished)]"
| "transitions ParsingNumberIndication =
     [(PeriodEvent, ParsingPeriod), (SymbolEvent, ParsingMove), (AsterkixEvent, Finished)]"
| "transitions ParsingPeriod =
     [(PeriodEvent, ParsingPeriod), (SymbolEvent, ParsingMove), (AsterkixEvent, Finished)]"
| "transitions ParsingMove =
     [(SymbolEvent, ParsingMove), (IntegerEvent, ParsingNumberIndication),
      (AsterkixEvent, Finished)]"
| "transitions ParsingLeftParenthesis = [(AsterkixEvent, Finished)]"
| "transitions ParsingRightParenthesis = [(AsterkixEvent, Finished)]"
| "transitions ParsingComment = [(AsterkixEvent, Finished)]"
| "transitions Finished = []"

text \<open>Only the status of \<^verbatim>\<open>ParsingMove\<close> has an \<^verbatim>\<open>emit_move\<close>.\<close>

definition has_emit_move :: "State \<Rightarrow> bool" where
  "has_emit_move st = (st = ParsingMove)"

record PGNParser =
  state :: State
  paranthesis_count :: int
  white_turn :: bool

definition new_PGNParser :: PGNParser where
  "new_PGNParser = \<lparr>state = Init, paranthesis_count = 0, white_turn = False\<rparr>"

text \<open>
  \<^verbatim>\<open>emit_move\<close>: the lambda stored for \<^verbatim>\<open>ParsingMove\<close> negates \<^verbatim>\<open>white_turn\<close> and
  then calls the move factory with the new value.
\<close>

definition emit_move :: "PGNParser \<Rightarrow> string \<Rightarrow> error + (PGNParser \<times> Moves)" where
  "emit_move p val =
     (let p' = p\<lparr>white_turn := \<not> white_turn p\<rparr>
      in case MoveFactory val (white_turn p') of Inl e \<Rightarrow> Inl e | Inr m \<Rightarrow> Inr (p', m))"

definition consume_token :: "PGNParser \<Rightarrow> Token \<Rightarrow> error + (PGNParser \<times> Moves option)" where
  "consume_token p token =
     (if token = Monostate then Inl AssertionFailed
      else if event token = BraceCommentEvent \<or> event token = LineCommentEvent \<or>
              event token = EscapeEvent \<or> event token = NumericGlyphEvent
      then Inr (p, None)
      else if event token = LeftParenthesisEvent
      then Inr (p\<lparr>paranthesis_count := paranthesis_count p + 1\<rparr>, None)
      else if event token = RightParenthesisEvent
      then Inr (p\<lparr>paranthesis_count := paranthesis_count p - 1\<rparr>, None)
      else
        INTERNAL_ASSERT (paranthesis_count p \<ge> 0)
       (INTERNAL_ASSERT (transitions (state p) \<noteq> [])
       (case map_of (transitions (state p)) (event token) of
          None \<Rightarrow>
            if state p = ParsingMove \<and> event token = PeriodEvent then Inr (p, None)
            else Inl RuntimeError
        | Some target \<Rightarrow>
            (let p' = p\<lparr>state := target\<rparr> in
             if target = Finished
             then Inr (p', if paranthesis_count p > 0 then None else Some (Finish MANUAL))
             else if target = ParsingMove \<and> has_emit_move target then
               (case token_value token of
                  Some val \<Rightarrow>
                    if paranthesis_count p > 0 then Inr (p', None)
                    else (case emit_move p' val of
                            Inl e \<Rightarrow> Inl e
                          | Inr (p'', m) \<Rightarrow> Inr (p'', Some m))
                | None \<Rightarrow> Inr (p', None))
             else Inr (p', None)))))"

section \<open>The board engine (board.h)\<close>

record Cell =
  is_white :: bool
  piece :: char
  double_move :: bool

text \<open>
  \<^verbatim>\<open>board_\<close> is a vector of 8 vectors of 8 cells, indexed \<^verbatim>\<open>board_[x][y]\<close> with the
  row \<^verbatim>\<open>x\<close> and the column \<^verbatim>\<open>y\<close>. The model is a function on the pair
  \<open>(x, y)\<close>. Indexing outside 0..7 is undefined in C++: \<open>apply\<close> refuses a
  descriptor with a hint outside 0..7 as \<open>UndefinedBehaviour\<close>, and from hints
  inside that range every index the engine forms stays inside it. A function of the
  board that takes coordinates dereferences both optionals without a test, so it
  takes a pair of integers.
\<close>

type_synonym Board = "int \<times> int \<Rightarrow> Cell"

definition empty_cell :: Cell where
  "empty_cell = \<lparr>is_white = False, piece = CHR ''.'', double_move = False\<rparr>"

definition clear :: Board where
  "clear = (\<lambda>c. empty_cell)"

definition place :: "Board \<Rightarrow> int \<times> int \<Rightarrow> char \<Rightarrow> bool \<Rightarrow> Board" where
  "place b c pc w = b(c := (b c)\<lparr>piece := pc, is_white := w\<rparr>)"

definition high_rank :: string where
  "high_rank = ''RNBQKBNR''"

definition low_rank :: string where
  "low_rank = ''PPPPPPPP''"

text \<open>The constructor: the cleared board, then the two loops over the columns.\<close>

definition ChessBoard :: Board where
  "ChessBoard =
     fold (\<lambda>i b. place (place b (r CHR ''1'', int i) (high_rank ! i) True)
                        (r CHR ''2'', int i) (low_rank ! i) True) [0..<8]
       (fold (\<lambda>i b. place (place b (r CHR ''8'', int i) (high_rank ! i) False)
                           (r CHR ''7'', int i) (low_rank ! i) False) [0..<8] clear)"

definition manualy_set_cell :: "Board \<Rightarrow> int \<times> int \<Rightarrow> Cell \<Rightarrow> error + Board" where
  "manualy_set_cell b c cell =
     INTERNAL_ASSERT (snd c \<le> 7 \<and> snd c \<ge> 0)
    (INTERNAL_ASSERT (fst c \<le> 7 \<and> fst c \<ge> 0) (Inr (b(c := cell))))"

definition in_range :: "int \<Rightarrow> bool" where
  "in_range idx = (0 \<le> idx \<and> idx \<le> 7)"

definition is_free_cell :: "Board \<Rightarrow> int \<times> int \<Rightarrow> bool" where
  "is_free_cell b c = (piece (b c) = CHR ''.'')"

definition is_valid_dest :: "Board \<Rightarrow> int \<times> int \<Rightarrow> bool \<Rightarrow> bool \<Rightarrow> bool" where
  "is_valid_dest b dst capture is_white_move =
     (if capture
      then (is_white (b dst) = (\<not> is_white_move) \<and> piece (b dst) \<noteq> CHR ''K'')
      else (piece (b dst) = CHR ''.''))"

subsection \<open>Pin detection\<close>

text \<open>
  The array \<^verbatim>\<open>d\<close> of the eight directions of \<^verbatim>\<open>is_locked\<close>. Only the indices
  0..7 are used (the loop counter, and \<^verbatim>\<open>(idx + 4) % 8\<close>).
\<close>

definition direction :: "nat \<Rightarrow> int \<times> int" where
  "direction i =
     (if i = 0 then (-1, 0) else if i = 1 then (-1, 1) else if i = 2 then (0, 1)
      else if i = 3 then (1, 1) else if i = 4 then (1, 0) else if i = 5 then (1, -1)
      else if i = 6 then (0, -1) else (-1, -1))"

definition advance :: "nat \<Rightarrow> int \<times> int \<Rightarrow> int \<times> int" where
  "advance i ray = (fst ray + fst (direction i), snd ray + snd (direction i))"

definition on_board :: "int \<times> int \<Rightarrow> bool" where
  "on_board c = (in_range (fst c) \<and> in_range (snd c))"

text \<open>The number of steps in direction \<open>i\<close> that stay on the board: the loops' variant.\<close>

definition steps_left :: "nat \<Rightarrow> int \<times> int \<Rightarrow> nat" where
  "steps_left i ray =
     (if fst (direction i) = 1 then nat (8 - fst ray)
      else if fst (direction i) = -1 then nat (fst ray + 1)
      else if snd (direction i) = 1 then nat (8 - snd ray)
      else nat (snd ray + 1))"

lemma steps_left_advance:
  "on_board (advance i ray) \<Longrightarrow> steps_left i (advance i ray) < steps_left i ray"
  by (auto simp: on_board_def in_range_def advance_def steps_left_def direction_def
      split: if_splits)

text \<open>
  The first \<^verbatim>\<open>do ... while\<close> of \<^verbatim>\<open>is_locked\<close>: step from \<open>ray\<close> in direction \<open>i\<close>
  while the square reached is on the board and empty; the result is the square where
  the loop stops.
\<close>

function cast_ray :: "Board \<Rightarrow> nat \<Rightarrow> int \<times> int \<Rightarrow> int \<times> int" where
  "cast_ray b i ray =
     (if on_board (advance i ray) \<and> piece (b (advance i ray)) = CHR ''.''
      then cast_ray b i (advance i ray) else advance i ray)"
  by pat_completeness auto
termination
  by (relation "measure (\<lambda>(b, i, ray). steps_left i ray)") (auto simp: steps_left_advance)

text \<open>The second one also stops on \<open>dst\<close>.\<close>

function cast_ray_until :: "Board \<Rightarrow> nat \<Rightarrow> int \<times> int \<Rightarrow> int \<times> int \<Rightarrow> int \<times> int" where
  "cast_ray_until b i dst ray =
     (if advance i ray \<noteq> dst \<and> on_board (advance i ray) \<and> piece (b (advance i ray)) = CHR ''.''
      then cast_ray_until b i dst (advance i ray) else advance i ray)"
  by pat_completeness auto
termination
  by (relation "measure (\<lambda>(b, i, dst, ray). steps_left i ray)") (auto simp: steps_left_advance)

definition is_king_under_attack :: "Board \<Rightarrow> bool \<Rightarrow> nat \<Rightarrow> int \<times> int \<Rightarrow> bool" where
  "is_king_under_attack b is_white_move dir_idx attacker =
     (if piece (b attacker) = CHR ''.'' \<or> is_white (b attacker) = is_white_move then False
      else if odd dir_idx
      then (piece (b attacker) = CHR ''Q'' \<or> piece (b attacker) = CHR ''B'')
      else (piece (b attacker) = CHR ''Q'' \<or> piece (b attacker) = CHR ''R''))"

text \<open>The \<^verbatim>\<open>for\<close> loop that looks for the mover's king: the first direction that sees it.\<close>

fun find_king :: "Board \<Rightarrow> int \<times> int \<Rightarrow> bool \<Rightarrow> nat list \<Rightarrow> nat option" where
  "find_king b src is_white_move [] = None"
| "find_king b src is_white_move (i # rest) =
     (let ray = cast_ray b i src in
      if on_board ray \<and> piece (b ray) = CHR ''K'' \<and> is_white (b ray) = is_white_move
      then Some i else find_king b src is_white_move rest)"

definition is_locked :: "Board \<Rightarrow> int \<times> int \<Rightarrow> int \<times> int \<Rightarrow> bool \<Rightarrow> bool \<Rightarrow> error + bool" where
  "is_locked b src dst capture is_white_move =
     (case find_king b src is_white_move [0..<8] of
        None \<Rightarrow> Inr False
      | Some idx \<Rightarrow>
          (let opposite_idx = (idx + 8 div 2) mod 8;
               ray = cast_ray_until b opposite_idx dst src
           in if on_board ray \<and> piece (b ray) \<noteq> CHR ''.'' then
                (if ray = dst then
                   INTERNAL_ASSERT (is_white (b ray) \<noteq> is_white_move)
                  (INTERNAL_ASSERT capture
                  (if on_board (advance opposite_idx ray)
                   then Inr (is_king_under_attack b is_white_move idx (advance opposite_idx ray))
                   else Inr False))
                 else Inr (is_king_under_attack b is_white_move idx ray))
              else Inr False))"

subsection \<open>The motion predicates\<close>

text \<open>
  \<^verbatim>\<open>can_move_pawn\<close> writes to the board: an en-passant capture removes the captured
  pawn, and a legal double push sets \<^verbatim>\<open>double_move\<close> on the destination. It returns
  its verdict with the board it leaves.
\<close>

definition can_move_pawn ::
    "Board \<Rightarrow> int \<times> int \<Rightarrow> int \<times> int \<Rightarrow> bool \<Rightarrow> bool \<Rightarrow> error + (bool \<times> Board)" where
  "can_move_pawn b src dst capture is_white_move =
     (let dy = \<bar>snd dst - snd src\<bar>;
          first_move = (if is_white_move then r CHR ''2'' = fst src else r CHR ''7'' = fst src);
          dx = (if is_white_move then fst src - fst dst else fst dst - fst src);
          step = (if is_white_move then -1 else 1)
      in
      if capture then
        (if (dx = 1 \<and> dy = 1) \<and> piece (b dst) = CHR ''.'' then
           (let xc = (fst src, snd src + (snd dst - snd src)) in
            INTERNAL_ASSERT (in_range (snd xc))
           (INTERNAL_ASSERT (piece (b xc) = CHR ''P'')
           (INTERNAL_ASSERT (is_white (b xc) = (\<not> is_white_move))
           (INTERNAL_ASSERT (double_move (b xc))
           (Inr (True, b(xc := (b xc)\<lparr>piece := CHR ''.'', double_move := False\<rparr>)))))))
         else Inr ((dx = 1 \<and> dy = 1) \<and> is_valid_dest b dst capture is_white_move, b))
      else if dx = 2 then
        (if first_move \<and> dy = 0 then
           (if \<not> is_free_cell b (fst src + step, snd src) then Inr (False, b)
            else if is_free_cell b (fst src + step + step, snd src)
            then Inr (True, b(dst := (b dst)\<lparr>double_move := True\<rparr>))
            else Inr (False, b))
         else Inr (False, b))
      else if dx = 1 then Inr (dy = 0 \<and> is_valid_dest b dst capture is_white_move, b)
      else Inr (False, b))"

text \<open>
  The loops of \<^verbatim>\<open>can_move_rook\<close> and \<^verbatim>\<open>can_move_bishop\<close> step from the source to
  the destination and return false at a square other than the destination that is not
  free. Each runs as many times as the distance \<open>n\<close> between the two squares.
\<close>

fun path_free :: "Board \<Rightarrow> int \<times> int \<Rightarrow> int \<times> int \<Rightarrow> int \<times> int \<Rightarrow> nat \<Rightarrow> bool" where
  "path_free b step dst ray 0 = True"
| "path_free b step dst ray (Suc n) =
     (let ray' = (fst ray + fst step, snd ray + snd step) in
      if dst \<noteq> ray' \<and> \<not> is_free_cell b ray' then False
      else path_free b step dst ray' n)"

definition can_move_rook :: "Board \<Rightarrow> int \<times> int \<Rightarrow> int \<times> int \<Rightarrow> bool \<Rightarrow> bool \<Rightarrow> bool" where
  "can_move_rook b src dst capture is_white_move =
     (if fst src = fst dst \<and> snd src \<noteq> snd dst then
        (if snd src < snd dst
         then path_free b (0, 1) dst src (nat (snd dst - snd src)) \<and>
              is_valid_dest b dst capture is_white_move
         else path_free b (0, -1) dst src (nat (snd src - snd dst)) \<and>
              is_valid_dest b dst capture is_white_move)
      else if snd src = snd dst \<and> fst src \<noteq> fst dst then
        (if fst src < fst dst
         then path_free b (1, 0) dst src (nat (fst dst - fst src)) \<and>
              is_valid_dest b dst capture is_white_move
         else path_free b (-1, 0) dst src (nat (fst src - fst dst)) \<and>
              is_valid_dest b dst capture is_white_move)
      else False)"

definition can_move_bishop :: "Board \<Rightarrow> int \<times> int \<Rightarrow> int \<times> int \<Rightarrow> bool \<Rightarrow> bool \<Rightarrow> bool" where
  "can_move_bishop b src dst capture is_white_move =
     (let dx = \<bar>fst dst - fst src\<bar>; dy = \<bar>snd dst - snd src\<bar> in
      if dx \<ge> 1 \<and> dy \<ge> 1 \<and> dx = dy then
        (if fst dst > fst src \<and> snd dst > snd src
         then path_free b (1, 1) dst src (nat (fst dst - fst src))
         else if fst dst > fst src \<and> snd dst < snd src
         then path_free b (1, -1) dst src (nat (fst dst - fst src))
         else if fst dst < fst src \<and> snd dst > snd src
         then path_free b (-1, 1) dst src (nat (fst src - fst dst))
         else if fst dst < fst src \<and> snd dst < snd src
         then path_free b (-1, -1) dst src (nat (fst src - fst dst))
         else True) \<and>
        is_valid_dest b dst capture is_white_move
      else False)"

definition can_move_queen :: "Board \<Rightarrow> int \<times> int \<Rightarrow> int \<times> int \<Rightarrow> bool \<Rightarrow> bool \<Rightarrow> bool" where
  "can_move_queen b src dst capture is_white_move =
     (can_move_rook b src dst capture is_white_move \<or>
      can_move_bishop b src dst capture is_white_move)"

definition can_move_knight :: "Board \<Rightarrow> int \<times> int \<Rightarrow> int \<times> int \<Rightarrow> bool \<Rightarrow> bool \<Rightarrow> bool" where
  "can_move_knight b src dst capture is_white_move =
     (let dx = \<bar>fst dst - fst src\<bar>; dy = \<bar>snd dst - snd src\<bar> in
      ((dx = 1 \<and> dy = 2) \<or> (dx = 2 \<and> dy = 1)) \<and> is_valid_dest b dst capture is_white_move)"

definition can_move_king :: "Board \<Rightarrow> int \<times> int \<Rightarrow> int \<times> int \<Rightarrow> bool \<Rightarrow> bool \<Rightarrow> bool" where
  "can_move_king b src dst capture is_white_move =
     (let dx = \<bar>fst src - fst dst\<bar>; dy = \<bar>snd src - snd dst\<bar> in
      ((dx \<noteq> 0 \<or> dy \<noteq> 0) \<and> dx \<le> 1 \<and> dy \<le> 1) \<and> is_valid_dest b dst capture is_white_move)"

subsection \<open>Applying a descriptor\<close>

text \<open>
  The candidate sets are \<^verbatim>\<open>std::unordered_set\<close>s, whose iteration order the C++
  standard leaves open. The model lists the candidates in the order the scans insert
  them. Only a pair that the legality test accepts changes the board.
\<close>

definition is_candidate :: "Board \<Rightarrow> NextMove \<Rightarrow> int \<times> int \<Rightarrow> bool" where
  "is_candidate b val c =
     (piece (b c) = nm_piece val \<and> is_white (b c) = nm_is_white_move val)"

definition src_candidates :: "Board \<Rightarrow> NextMove \<Rightarrow> (int \<times> int) list" where
  "src_candidates b val =
     (case (cx (nm_src val), cy (nm_src val)) of
        (None, None) \<Rightarrow> filter (is_candidate b val) (List.product [0..7] [0..7])
      | (Some x, None) \<Rightarrow> filter (is_candidate b val) (map (\<lambda>y. (x, y)) [0..7])
      | (None, Some y) \<Rightarrow> filter (is_candidate b val) (map (\<lambda>x. (x, y)) [0..7])
      | (Some x, Some y) \<Rightarrow> [(x, y)])"

definition is_dst_candidate :: "Board \<Rightarrow> NextMove \<Rightarrow> int \<times> int \<Rightarrow> bool" where
  "is_dst_candidate b val c = (piece (b c) = CHR ''.'' \<or> nm_capture val)"

text \<open>
  In the branch for a missing column, \<^verbatim>\<open>dst.x.value()\<close> throws when the row is
  missing too.
\<close>

definition dst_candidates :: "Board \<Rightarrow> NextMove \<Rightarrow> error + (int \<times> int) list" where
  "dst_candidates b val =
     (case cy (nm_dst val) of
        None \<Rightarrow>
          (case cx (nm_dst val) of
             None \<Rightarrow> Inl RuntimeError
           | Some x \<Rightarrow> Inr (filter (is_dst_candidate b val) (map (\<lambda>y. (x, y)) [0..7])))
      | Some y \<Rightarrow>
          (case cx (nm_dst val) of
             None \<Rightarrow> Inr (filter (is_dst_candidate b val) (map (\<lambda>x. (x, y)) [0..7]))
           | Some x \<Rightarrow> Inr [(x, y)]))"

text \<open>The \<^verbatim>\<open>switch\<close> on the piece: the legality test after the pin test.\<close>

definition can_move ::
    "Board \<Rightarrow> char \<Rightarrow> int \<times> int \<Rightarrow> int \<times> int \<Rightarrow> bool \<Rightarrow> bool \<Rightarrow> error + (bool \<times> Board)" where
  "can_move b pc src dst capture is_white_move =
     (if pc = CHR ''P'' then can_move_pawn b src dst capture is_white_move
      else if pc = CHR ''R'' then Inr (can_move_rook b src dst capture is_white_move, b)
      else if pc = CHR ''Q'' then Inr (can_move_queen b src dst capture is_white_move, b)
      else if pc = CHR ''N'' then Inr (can_move_knight b src dst capture is_white_move, b)
      else if pc = CHR ''B'' then Inr (can_move_bishop b src dst capture is_white_move, b)
      else if pc = CHR ''K'' then Inr (can_move_king b src dst capture is_white_move, b)
      else Inl AssertionFailed)"

text \<open>The local variables of the double loop, with the board.\<close>

record loop_state =
  board :: Board
  matches :: nat
  final_src :: "(int \<times> int) option"
  final_dst :: "(int \<times> int) option"
  found_match :: bool

text \<open>
  Clearing \<^verbatim>\<open>double_move\<close> at the first match: on the source for a pawn, on the
  destination for a capture by another piece.
\<close>

definition clear_double_move ::
    "Board \<Rightarrow> NextMove \<Rightarrow> int \<times> int \<Rightarrow> int \<times> int \<Rightarrow> error + Board" where
  "clear_double_move b val src dst =
     (if nm_piece val = CHR ''P'' then
        (if double_move (b src) then Inr (b(src := (b src)\<lparr>double_move := False\<rparr>)) else Inr b)
      else if nm_capture val then
        (if double_move (b dst)
         then INTERNAL_ASSERT (piece (b dst) = CHR ''P'')
                (Inr (b(dst := (b dst)\<lparr>double_move := False\<rparr>)))
         else Inr b)
      else Inr b)"

text \<open>
  The body of the inner loop on one pair. The verdict returned with the state is what
  the body adds to \<^verbatim>\<open>matches\<close>: false for a locked pair (\<^verbatim>\<open>continue\<close>), else the
  result of the motion predicate.
\<close>

definition pair_step ::
    "NextMove \<Rightarrow> (int \<times> int) \<times> (int \<times> int) \<Rightarrow> loop_state \<Rightarrow> error + (bool \<times> loop_state)" where
  "pair_step val p st =
     (case is_locked (board st) (fst p) (snd p) (nm_capture val) (nm_is_white_move val) of
        Inl e \<Rightarrow> Inl e
      | Inr True \<Rightarrow> Inr (False, st)
      | Inr False \<Rightarrow>
          (case can_move (board st) (nm_piece val) (fst p) (snd p) (nm_capture val)
                  (nm_is_white_move val) of
             Inl e \<Rightarrow> Inl e
           | Inr (ok, b1) \<Rightarrow>
               (let m = matches st + (if ok then 1 else 0) in
                if \<not> found_match st \<and> m = 1 then
                  (case clear_double_move b1 val (fst p) (snd p) of
                     Inl e \<Rightarrow> Inl e
                   | Inr b2 \<Rightarrow>
                       Inr (ok, \<lparr>board = b2, matches = m, final_src = Some (fst p),
                                final_dst = Some (snd p), found_match = True\<rparr>))
                else Inr (ok, st\<lparr>board := b1, matches := m\<rparr>))))"

fun pair_loop ::
    "NextMove \<Rightarrow> ((int \<times> int) \<times> (int \<times> int)) list \<Rightarrow> loop_state \<Rightarrow> error + loop_state" where
  "pair_loop val [] st = Inr st"
| "pair_loop val (p # ps) st =
     (case pair_step val p st of Inl e \<Rightarrow> Inl e | Inr (ok, st') \<Rightarrow> pair_loop val ps st')"

definition hint_in_range :: "int option \<Rightarrow> bool" where
  "hint_in_range h = (case h of None \<Rightarrow> True | Some i \<Rightarrow> in_range i)"

definition hints_in_range :: "NextMove \<Rightarrow> bool" where
  "hints_in_range val =
     (hint_in_range (cx (nm_src val)) \<and> hint_in_range (cy (nm_src val)) \<and>
      hint_in_range (cx (nm_dst val)) \<and> hint_in_range (cy (nm_dst val)))"

text \<open>The local variables as the double loop finds them.\<close>

definition loop_start :: "Board \<Rightarrow> loop_state" where
  "loop_start b =
     \<lparr>board = b, matches = 0, final_src = None, final_dst = None, found_match = False\<rparr>"

text \<open>The writes after the double loop.\<close>

definition finish_move :: "Board \<Rightarrow> NextMove \<Rightarrow> int \<times> int \<Rightarrow> int \<times> int \<Rightarrow> Board" where
  "finish_move b val src dst =
     (let b1 = b(dst := (b dst)\<lparr>piece :=
                  (case nm_promote_piece val of Some q \<Rightarrow> q | None \<Rightarrow> nm_piece val)\<rparr>);
          b2 = b1(src := (b1 src)\<lparr>piece := CHR ''.''\<rparr>)
      in b2(dst := (b2 dst)\<lparr>is_white := nm_is_white_move val\<rparr>))"

definition apply_NextMove :: "Board \<Rightarrow> NextMove \<Rightarrow> error + Board" where
  "apply_NextMove b val =
     INTERNAL_ASSERT (nm_piece val \<noteq> CHR 0x00)
    (INTERNAL_ASSERT (cy (nm_dst val) \<noteq> None)
    (if \<not> hints_in_range val then Inl UndefinedBehaviour
     else
       INTERNAL_ASSERT (src_candidates b val \<noteq> [])
      (case dst_candidates b val of
         Inl e \<Rightarrow> Inl e
       | Inr dsts \<Rightarrow>
           INTERNAL_ASSERT (dsts \<noteq> [])
          (case pair_loop val (List.product (src_candidates b val) dsts) (loop_start b) of
             Inl e \<Rightarrow> Inl e
           | Inr st \<Rightarrow>
               INTERNAL_ASSERT (matches st = 1)
              (case (final_src st, final_dst st) of
                 (Some src, Some dst) \<Rightarrow> Inr (finish_move (board st) val src dst)
               | _ \<Rightarrow> Inl UndefinedBehaviour)))))"

text \<open>Castling copies whole cells and then empties the two home squares.\<close>

definition move_cell :: "Board \<Rightarrow> int \<times> int \<Rightarrow> int \<times> int \<Rightarrow> Board" where
  "move_cell b to from =
     (let b1 = b(to := b from) in b1(from := (b1 from)\<lparr>piece := CHR ''.''\<rparr>))"

definition apply_QueenCastling :: "Board \<Rightarrow> bool \<Rightarrow> error + Board" where
  "apply_QueenCastling b is_white_move =
     (let row = (if is_white_move then r CHR ''1'' else r CHR ''8'') in
      INTERNAL_ASSERT (is_free_cell b (row, f CHR ''c''))
     (INTERNAL_ASSERT (is_free_cell b (row, f CHR ''d''))
     (Inr (move_cell (move_cell b (row, f CHR ''c'') (row, f CHR ''e''))
                     (row, f CHR ''d'') (row, f CHR ''a'')))))"

definition apply_KingCastling :: "Board \<Rightarrow> bool \<Rightarrow> error + Board" where
  "apply_KingCastling b is_white_move =
     (let row = (if is_white_move then r CHR ''1'' else r CHR ''8'') in
      INTERNAL_ASSERT (is_free_cell b (row, f CHR ''g''))
     (INTERNAL_ASSERT (is_free_cell b (row, f CHR ''f''))
     (Inr (move_cell (move_cell b (row, f CHR ''g'') (row, f CHR ''e''))
                     (row, f CHR ''f'') (row, f CHR ''h'')))))"

text \<open>\<^verbatim>\<open>ChessBoard::apply\<close>: the visit of the descriptor.\<close>

fun apply_move :: "Board \<Rightarrow> Moves \<Rightarrow> error + Board" where
  "apply_move b (Next val) = apply_NextMove b val"
| "apply_move b (QueenCastling w) = apply_QueenCastling b w"
| "apply_move b Ignore = Inr b"
| "apply_move b (KingCastling w) = apply_KingCastling b w"
| "apply_move b (Finish m) = Inr b"

section \<open>The replay\<close>

text \<open>
  The loop of \<^verbatim>\<open>main\<close> and of \<^verbatim>\<open>verify\<close> in tests.cpp over tokens already scanned:
  each token goes to the parser, a \<^verbatim>\<open>Finish\<close> descriptor ends the loop, any other
  descriptor is applied to the board.
\<close>

fun is_Finish :: "Moves \<Rightarrow> bool" where
  "is_Finish (Finish m) = True"
| "is_Finish mv = False"

fun run_tokens :: "PGNParser \<Rightarrow> Board \<Rightarrow> Token list \<Rightarrow> error + Board" where
  "run_tokens p b [] = Inr b"
| "run_tokens p b (t # ts) =
     (case consume_token p t of
        Inl e \<Rightarrow> Inl e
      | Inr (p', None) \<Rightarrow> run_tokens p' b ts
      | Inr (p', Some action) \<Rightarrow>
          if is_Finish action then Inr b
          else (case apply_move b action of Inl e \<Rightarrow> Inl e | Inr b' \<Rightarrow> run_tokens p' b' ts))"

text \<open>The same loop over the scanner itself, which reads the stream as the loop asks.\<close>

function replay :: "Scan \<Rightarrow> PGNParser \<Rightarrow> Board \<Rightarrow> error + Board" where
  "replay s p b =
     (case scan_token s of
        Inl e \<Rightarrow> Inl e
      | Inr None \<Rightarrow> Inr b
      | Inr (Some (t, s')) \<Rightarrow>
          (case consume_token p t of
             Inl e \<Rightarrow> Inl e
           | Inr (p', None) \<Rightarrow> replay s' p' b
           | Inr (p', Some action) \<Rightarrow>
               if is_Finish action then Inr b
               else (case apply_move b action of
                       Inl e \<Rightarrow> Inl e
                     | Inr b' \<Rightarrow> replay s' p' b')))"
  by pat_completeness auto
termination
  by (relation "measure (\<lambda>(s, p, b). scan_measure s)") (auto dest: scan_token_measure)

definition replay_pgn :: "string \<Rightarrow> error + Board" where
  "replay_pgn text = replay (TokenScanner text) new_PGNParser ChessBoard"

text \<open>The board as rows of cells, for comparing two boards square by square.\<close>

definition cells :: "Board \<Rightarrow> Cell list list" where
  "cells b = map (\<lambda>x. map (\<lambda>y. b (x, y)) [0..7]) [0..7]"

declare cast_ray.simps [simp del]
declare cast_ray_until.simps [simp del]
declare tokens.simps [simp del]
declare replay.simps [simp del]

section \<open>Basic facts for evaluating the model\<close>

lemma upt8: "[0..<8] = [0, 1, 2, 3, 4, 5, 6, 7::nat]"
  by code_simp

lemma upto07: "[0..7] = [0, 1, 2, 3, 4, 5, 6, 7::int]"
  by code_simp

lemma r_values: "r CHR ''1'' = 7" "r CHR ''2'' = 6" "r CHR ''7'' = 1" "r CHR ''8'' = 0"
  by (simp_all add: r_def code_def)

lemma f_values: "f CHR ''a'' = 0" "f CHR ''c'' = 2" "f CHR ''d'' = 3" "f CHR ''e'' = 4"
  "f CHR ''f'' = 5" "f CHR ''g'' = 6" "f CHR ''h'' = 7"
  by (simp_all add: f_def code_def)

text \<open>What one loop of the constructor leaves on a square.\<close>

lemma rank_loop_cell:
  assumes "ra \<noteq> rb"
  shows "fold (\<lambda>i b. place (place b (ra, int i) (h ! i) w) (rb, int i) (l ! i) w) [0..<n] b0 (x, y) =
     (if 0 \<le> y \<and> y < int n \<and> x = ra then (b0 (x, y))\<lparr>piece := h ! nat y, is_white := w\<rparr>
      else if 0 \<le> y \<and> y < int n \<and> x = rb then (b0 (x, y))\<lparr>piece := l ! nat y, is_white := w\<rparr>
      else b0 (x, y))"
proof (induction n)
  case 0
  show ?case by auto
next
  case (Suc n)
  have "y < int (Suc n) \<longleftrightarrow> y < int n \<or> y = int n" by auto
  with Suc assms show ?case by (auto simp: place_def)
qed

text \<open>The starting position, square by square.\<close>

lemma ChessBoard_cell:
  "ChessBoard (x, y) =
     (if 0 \<le> y \<and> y \<le> 7 \<and> (x = 0 \<or> x = 1 \<or> x = 6 \<or> x = 7) then
        \<lparr>is_white = (x = 6 \<or> x = 7),
         piece = (if x = 0 \<or> x = 7 then high_rank ! nat y else CHR ''P''),
         double_move = False\<rparr>
      else empty_cell)"
proof -
  have low: "0 \<le> y \<and> y \<le> 7 \<Longrightarrow> low_rank ! nat y = CHR ''P''"
  proof -
    assume "0 \<le> y \<and> y \<le> 7"
    then have "nat y \<in> {0,1,2,3,4,5,6,7}" by auto
    then show ?thesis by (auto simp: low_rank_def)
  qed
  show ?thesis
    using low by (simp add: ChessBoard_def r_values rank_loop_cell clear_def empty_cell_def)
qed

section \<open>The string atom\<close>

text \<open>
  C9, as the spec states it, fails: a backslash does not make every following character
  part of the value. After a stored backslash a printable character other than the
  quote and the backslash is \<^verbatim>\<open>INVALID\<close> ("backslash is not printed so this input
  is invalid!"), so the string \<^verbatim>\<open>"\a"\<close> is a fatal lexical error.
\<close>

theorem C9_counterexample:
  "StringToken_accept [] (CHR 0x5C) = (CONSUMED, [CHR 0x5C]) \<and>
   StringToken_accept [CHR 0x5C] CHR ''a'' = (INVALID, [CHR 0x5C]) \<and>
   tokens (TokenScanner [CHR 0x22, CHR 0x5C, CHR ''a'', CHR 0x22, CHR '' '']) = Inl RuntimeError"
  by (simp add: StringToken_accept_def isprint_def code_def TokenScanner_def scan_token_def
      scan_body_def is_token_separator_def new_token_def visit_accept_def tokens.simps)

text \<open>
  C9, amended: inside a STRING atom a quote that follows a stored backslash does not
  terminate the string, it takes the place of that backslash in the value; a printable
  character other than the quote and the backslash is appended to the value, unless
  the value ends with a stored backslash, where it is a fatal lexical error; a byte
  that is neither printable nor a quote nor a backslash is a fatal lexical error; a
  backslash is always consumed.
\<close>

theorem C9_string_accept:
  "(val \<noteq> [] \<and> last val = CHR 0x5C \<longrightarrow>
      StringToken_accept val (CHR 0x22) = (CONSUMED, butlast val @ [CHR 0x22])) \<and>
   (c \<noteq> CHR 0x22 \<and> c \<noteq> CHR 0x5C \<and> isprint c \<and> \<not> (val \<noteq> [] \<and> last val = CHR 0x5C) \<longrightarrow>
      StringToken_accept val c = (CONSUMED, val @ [c])) \<and>
   (c \<noteq> CHR 0x22 \<and> c \<noteq> CHR 0x5C \<and> isprint c \<and> val \<noteq> [] \<and> last val = CHR 0x5C \<longrightarrow>
      StringToken_accept val c = (INVALID, val)) \<and>
   (c \<noteq> CHR 0x22 \<and> c \<noteq> CHR 0x5C \<and> \<not> isprint c \<longrightarrow>
      StringToken_accept val c = (INVALID, val)) \<and>
   fst (StringToken_accept val (CHR 0x5C)) = CONSUMED"
  by (simp add: StringToken_accept_def)

theorem C9_string_accept_witness:
  "StringToken_accept [CHR 0x5C] (CHR 0x22) = (CONSUMED, [CHR 0x22]) \<and>
   StringToken_accept ''ab'' CHR ''c'' = (CONSUMED, ''abc'') \<and>
   StringToken_accept [CHR ''a'', CHR 0x5C, CHR 0x5C] CHR ''c'' =
     (INVALID, [CHR ''a'', CHR 0x5C, CHR 0x5C]) \<and>
   StringToken_accept ''ab'' (CHR 0x07) = (INVALID, ''ab'')"
  using C9_string_accept [of "[CHR 0x5C]" "CHR ''a''"]
        C9_string_accept [of "''ab''" "CHR ''c''"]
        C9_string_accept [of "[CHR ''a'', CHR 0x5C, CHR 0x5C]" "CHR ''c''"]
        C9_string_accept [of "''ab''" "CHR 0x07"]
  by (simp add: isprint_def code_def)

section \<open>The white-turn flag\<close>

text \<open>The colour of a descriptor is the colour the move factory was called with.\<close>

lemma parse_flags_white:
  "parse_flags n m cs = Inr (m', cs') \<Longrightarrow> nm_is_white_move m' = nm_is_white_move m"
  by (induction n m cs rule: parse_flags.induct) (auto split: if_splits)

lemma parse_promotion_white:
  "parse_promotion m cs = Inr (m', cs') \<Longrightarrow> nm_is_white_move m' = nm_is_white_move m"
  by (auto simp: parse_promotion_def split: list.splits if_splits)

lemma parse_dst_white:
  "parse_dst m cs = (m', cs') \<Longrightarrow> nm_is_white_move m' = nm_is_white_move m"
  by (auto simp: parse_dst_def split: prod.splits)

lemma parse_capture_white:
  "parse_capture m cs = (m', cs') \<Longrightarrow> nm_is_white_move m' = nm_is_white_move m"
  by (auto simp: parse_capture_def split: list.splits if_splits)

lemma parse_src_white:
  "parse_src m cs = Inr (m', cs') \<Longrightarrow> nm_is_white_move m' = nm_is_white_move m"
  by (auto simp: parse_src_def split: list.splits prod.splits)

lemma parse_piece_white:
  "parse_piece m cs = Inr m' \<Longrightarrow> nm_is_white_move m' = nm_is_white_move m"
  by (auto simp: parse_piece_def split: list.splits if_splits)

lemma regular_move_Next:
  assumes "regular_move val w = Inr mv"
  shows "\<exists>v. mv = Next v \<and> nm_is_white_move v = w"
proof -
  from assms obtain m1 cs1 where 1: "parse_flags 2 (new_NextMove val w) (rev val) = Inr (m1, cs1)"
    by (auto simp: regular_move_def split: sum.splits)
  from parse_flags_white[OF 1] have w1: "nm_is_white_move m1 = w" by (simp add: new_NextMove_def)
  from assms 1 obtain cs2 where 2: "parse_close_paren cs1 = Inr cs2"
    by (auto simp: regular_move_def split: sum.splits)
  from assms 1 2 obtain m3 cs3 where 3: "parse_promotion m1 cs2 = Inr (m3, cs3)"
    by (auto simp: regular_move_def split: sum.splits)
  obtain m4 cs4 where 4: "parse_dst m3 cs3 = (m4, cs4)" by (cases "parse_dst m3 cs3")
  from parse_promotion_white[OF 3] parse_dst_white[OF 4] w1
  have w4: "nm_is_white_move m4 = w" by simp
  show ?thesis
  proof (cases "cs4 = []")
    case True
    with assms 1 2 3 4 w4 show ?thesis by (auto simp: regular_move_def)
  next
    case False
    obtain m5 cs5 where 5: "parse_capture m4 cs4 = (m5, cs5)" by (cases "parse_capture m4 cs4")
    from assms 1 2 3 4 5 False obtain m6 cs6 where 6: "parse_src m5 cs5 = Inr (m6, cs6)"
      by (auto simp: regular_move_def split: sum.splits)
    from assms 1 2 3 4 5 6 False obtain m7
      where 7: "parse_piece m6 cs6 = Inr m7" and mv: "mv = Next m7"
      by (auto simp: regular_move_def split: sum.splits)
    from parse_capture_white[OF 5] parse_src_white[OF 6] parse_piece_white[OF 7] w4 mv
    show ?thesis by simp
  qed
qed

lemma MoveFactory_colour:
  assumes "MoveFactory val w = Inr mv"
  shows "mv \<noteq> Finish MANUAL \<and>
         (\<forall>c. mv = KingCastling c \<or> mv = QueenCastling c \<longrightarrow> c = w) \<and>
         (\<forall>v. mv = Next v \<longrightarrow> nm_is_white_move v = w)"
  using assms regular_move_Next[of val w mv]
  by (auto simp: MoveFactory_def split: if_splits)

lemma target_move: "map_of (transitions st) ev = Some ParsingMove \<Longrightarrow> ev = SymbolEvent"
  by (cases st) (auto split: if_splits)

lemma event_Symbol: "event t = SymbolEvent \<Longrightarrow> \<exists>v n. t = SymbolToken v n"
  by (cases t) auto

text \<open>The three ways \<^verbatim>\<open>consume_token\<close> returns.\<close>

lemma consume_token_cases:
  assumes "consume_token p t = Inr (p', out)"
  shows "(out = None \<and> white_turn p' = white_turn p) \<or>
         (out = Some (Finish MANUAL) \<and> white_turn p' = white_turn p) \<or>
         (\<exists>v n mv. t = SymbolToken v n \<and> out = Some mv \<and>
            MoveFactory v (\<not> white_turn p) = Inr mv \<and>
            white_turn p' = (\<not> white_turn p) \<and> paranthesis_count p = 0 \<and>
            state p' = ParsingMove)"
proof (cases "map_of (transitions (state p)) (event t) = Some ParsingMove")
  case False
  with assms show ?thesis
    by (auto simp: consume_token_def INTERNAL_ASSERT_def Let_def
        split: if_splits option.splits)
next
  case True
  from target_move[OF True] event_Symbol obtain v n where t: "t = SymbolToken v n" by blast
  with assms True show ?thesis
    by (auto simp: consume_token_def INTERNAL_ASSERT_def has_emit_move_def emit_move_def Let_def
        split: if_splits sum.splits)
qed

lemma consume_castle:
  "consume_token new_PGNParser (SymbolToken ''O-O'' False) =
     Inr (\<lparr>state = ParsingMove, paranthesis_count = 0, white_turn = True\<rparr>,
          Some (KingCastling True))"
  by (simp add: consume_token_def INTERNAL_ASSERT_def new_PGNParser_def has_emit_move_def
      emit_move_def MoveFactory_def Let_def)

text \<open>
  C4, as the spec states it, fails: a castling descriptor does toggle the flag. The
  first symbol \<^verbatim>\<open>O-O\<close> of a game turns \<^verbatim>\<open>white_turn\<close> from false to true, and the
  descriptor's colour is the flag after the toggle, not a colour of its own.
\<close>

theorem C4_counterexample:
  "white_turn new_PGNParser = False \<and>
   consume_token new_PGNParser (SymbolToken ''O-O'' False) =
     Inr (\<lparr>state = ParsingMove, paranthesis_count = 0, white_turn = True\<rparr>,
          Some (KingCastling True))"
  using consume_castle by (simp add: new_PGNParser_def)

text \<open>
  C4, amended: the white-turn flag toggles exactly when the driver emits a descriptor
  made by the move factory (a NextMove, a castling, a result marker or Ignore), which
  happens only for a SYMBOL atom that enters the Move state at parenthesis depth zero;
  no other atom toggles it, and the \<^verbatim>\<open>Finish\<close> descriptor of a STAR atom does not.
  A NextMove and a castling descriptor carry the value of the flag after the toggle.
\<close>

theorem C4_white_turn_toggle:
  assumes "consume_token p t = Inr (p', out)"
  shows "(white_turn p' = (\<not> white_turn p)) = (\<exists>mv. out = Some mv \<and> mv \<noteq> Finish MANUAL) \<and>
         (\<forall>mv. out = Some mv \<and> mv \<noteq> Finish MANUAL \<longrightarrow>
            (\<exists>v n. t = SymbolToken v n \<and> MoveFactory v (\<not> white_turn p) = Inr mv) \<and>
            paranthesis_count p = 0 \<and> state p' = ParsingMove) \<and>
         (\<forall>c. out = Some (KingCastling c) \<or> out = Some (QueenCastling c) \<longrightarrow>
            c = white_turn p') \<and>
         (\<forall>v. out = Some (Next v) \<longrightarrow> nm_is_white_move v = white_turn p')"
  using consume_token_cases[OF assms] MoveFactory_colour
  by (elim disjE exE conjE) (simp, simp, fastforce)

theorem C4_white_turn_toggle_witness:
  "consume_token new_PGNParser (SymbolToken ''O-O'' False) =
     Inr (\<lparr>state = ParsingMove, paranthesis_count = 0, white_turn = True\<rparr>,
          Some (KingCastling True)) \<and>
   white_turn \<lparr>state = ParsingMove, paranthesis_count = 0, white_turn = True\<rparr> =
     (\<not> white_turn new_PGNParser) \<and>
   MoveFactory ''O-O'' (\<not> white_turn new_PGNParser) = Inr (KingCastling True)"
  using C4_white_turn_toggle [OF consume_castle] consume_castle
  by (simp add: new_PGNParser_def)

section \<open>Queen-side castling\<close>

text \<open>The starting position with c1 and d1 emptied; the knight stays on b1.\<close>

definition b_knight_on_b1 :: Board where
  "b_knight_on_b1 = ChessBoard((7, 2) := empty_cell, (7, 3) := empty_cell)"

text \<open>
  C7, as the spec states it, fails: column 1 is not among the squares tested. With a
  knight on b1 and c1, d1 empty, white's queen-side castling is applied.
\<close>

theorem C7_counterexample:
  "piece (b_knight_on_b1 (7, 1)) = CHR ''N'' \<and>
   apply_move b_knight_on_b1 (QueenCastling True) =
     Inr (b_knight_on_b1((7, 2) := b_knight_on_b1 (7, 4),
            (7, 4) := (b_knight_on_b1 (7, 4))\<lparr>piece := CHR ''.''\<rparr>,
            (7, 3) := b_knight_on_b1 (7, 0),
            (7, 0) := (b_knight_on_b1 (7, 0))\<lparr>piece := CHR ''.''\<rparr>))"
  by (simp add: apply_QueenCastling_def INTERNAL_ASSERT_def is_free_cell_def move_cell_def
      r_values f_values Let_def b_knight_on_b1_def ChessBoard_cell empty_cell_def high_rank_def)

text \<open>
  C7, amended: applying a QueenSideCastle descriptor asserts that the two squares the
  king and the rook land on, columns 2 and 3 of the mover's back rank (row 7 for white,
  row 0 for black), are empty; a piece on one of them is a fatal error. Otherwise the
  cell of column 4 is copied to column 2 and the cell of column 0 to column 3, and
  columns 4 and 0 are emptied. Column 1 is not tested.
\<close>

theorem C7_queen_castling:
  "apply_move b (QueenCastling w) =
     (let row = (if w then 7 else 0) in
      if piece (b (row, 2)) = CHR ''.'' \<and> piece (b (row, 3)) = CHR ''.''
      then Inr (b((row, 2) := b (row, 4),
                  (row, 4) := (b (row, 4))\<lparr>piece := CHR ''.''\<rparr>,
                  (row, 3) := b (row, 0),
                  (row, 0) := (b (row, 0))\<lparr>piece := CHR ''.''\<rparr>))
      else Inl AssertionFailed)"
  by (simp add: apply_QueenCastling_def INTERNAL_ASSERT_def is_free_cell_def move_cell_def
      r_values f_values Let_def)

section \<open>The end of the stream\<close>










section \<open>En passant\<close>

text \<open>
  A line of tests.cpp such as \<^verbatim>\<open>b.apply(MoveFactory()(std::string{"b5"}, !white_move))\<close>:
  the move factory on a symbol and a colour, and the descriptor applied to the board.
\<close>

definition apply_san :: "Board \<Rightarrow> string \<Rightarrow> bool \<Rightarrow> error + Board" where
  "apply_san b text w = (case MoveFactory text w of Inl e \<Rightarrow> Inl e | Inr m \<Rightarrow> apply_move b m)"

text \<open>The definitions that evaluate the move factory and the board engine on a concrete input.\<close>

lemmas factory_defs = MoveFactory_def regular_move_def new_NextMove_def parse_close_paren_def
  parse_promotion_def parse_dst_def parse_rank_def parse_file_def parse_capture_def parse_src_def
  parse_piece_def is_rank_char_def is_file_char_def all_possible_pieces_def r_def f_def code_def
  numeral_2_eq_2

lemmas board_defs = apply_NextMove_def INTERNAL_ASSERT_def hints_in_range_def hint_in_range_def
  in_range_def src_candidates_def dst_candidates_def is_candidate_def is_dst_candidate_def upto07
  upt8 pair_step_def is_locked_def cast_ray.simps cast_ray_until.simps on_board_def advance_def
  direction_def is_king_under_attack_def can_move_def can_move_pawn_def can_move_rook_def
  can_move_bishop_def can_move_queen_def can_move_knight_def can_move_king_def is_valid_dest_def
  is_free_cell_def clear_double_move_def finish_move_def loop_start_def Let_def r_values f_values

text \<open>
  The scenario of tests.cpp: a cleared board with a black pawn on b7 (row 1, column 1)
  and a white pawn on c5 (row 3, column 2); then the board after \<^verbatim>\<open>b5\<close> and the
  board after \<^verbatim>\<open>cxb6\<close>.
\<close>

definition pawn_board :: Board where
  "pawn_board = clear((1, 1) := \<lparr>is_white = False, piece = CHR ''P'', double_move = False\<rparr>,
                      (3, 2) := \<lparr>is_white = True, piece = CHR ''P'', double_move = False\<rparr>)"

lemma mf_b5: "MoveFactory ''b5'' False = Inr (Next \<lparr>nm_piece = CHR ''P'', nm_is_white_move = False,
   nm_capture = False, nm_check = False, nm_checkmate = False, nm_src = \<lparr>cx = None, cy = None\<rparr>,
   nm_dst = \<lparr>cx = Some 3, cy = Some 1\<rparr>, nm_promote_piece = None, nm_orig_token = ''b5''\<rparr>)"
  by (simp add: factory_defs)

lemma mf_cxb6: "MoveFactory ''cxb6'' True = Inr (Next \<lparr>nm_piece = CHR ''P'', nm_is_white_move = True,
   nm_capture = True, nm_check = False, nm_checkmate = False, nm_src = \<lparr>cx = None, cy = Some 2\<rparr>,
   nm_dst = \<lparr>cx = Some 2, cy = Some 1\<rparr>, nm_promote_piece = None, nm_orig_token = ''cxb6''\<rparr>)"
  by (simp add: factory_defs)

definition pawn_board_b5 :: Board where
  "pawn_board_b5 = clear((1, 1) := \<lparr>is_white = False, piece = CHR ''.'', double_move = False\<rparr>,
                         (3, 2) := \<lparr>is_white = True, piece = CHR ''P'', double_move = False\<rparr>,
                         (3, 1) := \<lparr>is_white = False, piece = CHR ''P'', double_move = True\<rparr>)"

definition pawn_board_cxb6 :: Board where
  "pawn_board_cxb6 = clear((1, 1) := \<lparr>is_white = False, piece = CHR ''.'', double_move = False\<rparr>,
                         (3, 2) := \<lparr>is_white = True, piece = CHR ''.'', double_move = False\<rparr>,
                         (3, 1) := \<lparr>is_white = False, piece = CHR ''.'', double_move = False\<rparr>,
                         (2, 1) := \<lparr>is_white = True, piece = CHR ''P'', double_move = False\<rparr>)"

lemma step1: "apply_san pawn_board ''b5'' False = Inr pawn_board_b5"
  apply (simp add: apply_san_def mf_b5)
  apply (simp add: board_defs pawn_board_def pawn_board_b5_def clear_def empty_cell_def)
  apply (auto simp: fun_eq_iff)
  done

lemma step2: "apply_san pawn_board_b5 ''cxb6'' True = Inr pawn_board_cxb6"
  apply (simp add: apply_san_def mf_cxb6)
  apply (simp add: board_defs pawn_board_b5_def pawn_board_cxb6_def clear_def empty_cell_def)
  apply (auto simp: fun_eq_iff)
  done

lemma no_flags: "\<not> double_move (pawn_board_cxb6 c)"
  by (simp add: pawn_board_cxb6_def clear_def empty_cell_def)

text \<open>
  C5: for a pawn capture with forward distance 1 and file distance 1 onto an empty
  square, \<^verbatim>\<open>can_move_pawn\<close> answers true exactly when the cell on the row of the
  source and the column of the destination holds a pawn of the other colour with
  \<^verbatim>\<open>double_move\<close> set, and then that cell is emptied and its flag cleared; in every
  other case the assertions stop the replay. In the scenario, \<^verbatim>\<open>b5\<close> then
  \<^verbatim>\<open>cxb6\<close> leave the white pawn on (2, 1), the two source squares empty and no
  \<^verbatim>\<open>double_move\<close> flag on the board.
\<close>

theorem C5_en_passant:
  "(piece (b dst) = CHR ''.'' \<and> (if w then fst src - fst dst else fst dst - fst src) = 1 \<and>
    \<bar>snd dst - snd src\<bar> = 1 \<longrightarrow>
    can_move_pawn b src dst True w =
      (if in_range (snd dst) \<and> piece (b (fst src, snd dst)) = CHR ''P'' \<and>
          is_white (b (fst src, snd dst)) = (\<not> w) \<and> double_move (b (fst src, snd dst))
       then Inr (True, b((fst src, snd dst) :=
                        (b (fst src, snd dst))\<lparr>piece := CHR ''.'', double_move := False\<rparr>))
       else Inl AssertionFailed)) \<and>
   apply_san pawn_board ''b5'' False = Inr pawn_board_b5 \<and>
   apply_san pawn_board_b5 ''cxb6'' True = Inr pawn_board_cxb6 \<and>
   pawn_board_cxb6 (2, 1) = \<lparr>is_white = True, piece = CHR ''P'', double_move = False\<rparr> \<and>
   piece (pawn_board_cxb6 (1, 1)) = CHR ''.'' \<and> piece (pawn_board_cxb6 (3, 2)) = CHR ''.'' \<and>
   (\<forall>c. \<not> double_move (pawn_board_cxb6 c))"
proof -
  have "piece (b dst) = CHR ''.'' \<and> (if w then fst src - fst dst else fst dst - fst src) = 1 \<and>
    \<bar>snd dst - snd src\<bar> = 1 \<longrightarrow>
    can_move_pawn b src dst True w =
      (if in_range (snd dst) \<and> piece (b (fst src, snd dst)) = CHR ''P'' \<and>
          is_white (b (fst src, snd dst)) = (\<not> w) \<and> double_move (b (fst src, snd dst))
       then Inr (True, b((fst src, snd dst) :=
                        (b (fst src, snd dst))\<lparr>piece := CHR ''.'', double_move := False\<rparr>))
       else Inl AssertionFailed)"
    by (simp add: can_move_pawn_def INTERNAL_ASSERT_def Let_def)
  moreover have "pawn_board_cxb6 (2, 1) = \<lparr>is_white = True, piece = CHR ''P'', double_move = False\<rparr> \<and>
   piece (pawn_board_cxb6 (1, 1)) = CHR ''.'' \<and> piece (pawn_board_cxb6 (3, 2)) = CHR ''.''"
    by (simp add: pawn_board_cxb6_def)
  ultimately show ?thesis using step1 step2 no_flags by blast
qed

theorem C5_en_passant_witness:
  "can_move_pawn pawn_board_b5 (3, 2) (2, 1) True True =
     Inr (True, pawn_board_b5((3, 1) := (pawn_board_b5 (3, 1))\<lparr>piece := CHR ''.'', double_move := False\<rparr>))"
  using C5_en_passant [of pawn_board_b5 "(2, 1)" True "(3, 2)"]
  by (simp add: pawn_board_b5_def clear_def empty_cell_def in_range_def)


section \<open>The double loop over the candidate pairs\<close>

text \<open>A motion predicate that answers false leaves the board as it was.\<close>

lemma can_move_pawn_False:
  "can_move_pawn b src dst capture w = Inr (False, b1) \<Longrightarrow> b1 = b"
  by (auto simp: can_move_pawn_def INTERNAL_ASSERT_def Let_def split: if_splits)

lemma can_move_False:
  "can_move b pc src dst capture w = Inr (False, b1) \<Longrightarrow> b1 = b"
  by (auto simp: can_move_def split: if_splits dest: can_move_pawn_False)

text \<open>The three ways through the body of the loop.\<close>

lemma pair_step_cases:
  assumes "pair_step val p st = Inr (ok, st')"
  obtains
    (locked) "is_locked (board st) (fst p) (snd p) (nm_capture val) (nm_is_white_move val) = Inr True"
      "\<not> ok" "st' = st"
  | (first) b1 b2 where
      "is_locked (board st) (fst p) (snd p) (nm_capture val) (nm_is_white_move val) = Inr False"
      "can_move (board st) (nm_piece val) (fst p) (snd p) (nm_capture val) (nm_is_white_move val) =
         Inr (ok, b1)"
      "\<not> found_match st" "matches st + (if ok then 1 else 0) = 1"
      "clear_double_move b1 val (fst p) (snd p) = Inr b2"
      "st' = \<lparr>board = b2, matches = 1, final_src = Some (fst p), final_dst = Some (snd p),
              found_match = True\<rparr>"
  | (other) b1 where
      "is_locked (board st) (fst p) (snd p) (nm_capture val) (nm_is_white_move val) = Inr False"
      "can_move (board st) (nm_piece val) (fst p) (snd p) (nm_capture val) (nm_is_white_move val) =
         Inr (ok, b1)"
      "found_match st \<or> matches st + (if ok then 1 else 0) \<noteq> 1"
      "st' = st\<lparr>board := b1, matches := matches st + (if ok then 1 else 0)\<rparr>"
proof (cases "is_locked (board st) (fst p) (snd p) (nm_capture val) (nm_is_white_move val)")
  case (Inl e)
  from assms show ?thesis unfolding pair_step_def Inl by simp
next
  case (Inr l)
  show ?thesis
  proof (cases l)
    case True
    from Inr True have lk:
      "is_locked (board st) (fst p) (snd p) (nm_capture val) (nm_is_white_move val) = Inr True"
      by simp
    from assms have "\<not> ok \<and> st' = st" unfolding pair_step_def lk by simp
    with lk  show ?thesis using locked by blast
  next
    case False
    from Inr False have lk:
      "is_locked (board st) (fst p) (snd p) (nm_capture val) (nm_is_white_move val) = Inr False"
      by simp
    show ?thesis
    proof (cases "can_move (board st) (nm_piece val) (fst p) (snd p) (nm_capture val)
                    (nm_is_white_move val)")
      case (Inl e)
      from assms show ?thesis unfolding pair_step_def lk Inl by simp
    next
      case (Inr res)
      obtain ok1 b1 where res: "res = (ok1, b1)" by (cases res)
      from Inr res have cm:
        "can_move (board st) (nm_piece val) (fst p) (snd p) (nm_capture val)
           (nm_is_white_move val) = Inr (ok1, b1)"
        by simp
      show ?thesis
      proof (cases "\<not> found_match st \<and> matches st + (if ok1 then 1 else 0) = 1")
        case False
        from assms False have "ok = ok1 \<and>
          st' = st\<lparr>board := b1, matches := matches st + (if ok1 then 1 else 0)\<rparr>"
          unfolding pair_step_def lk cm by (auto simp: Let_def split: if_splits)
        with lk cm False show ?thesis using other by blast
      next
        case True
        show ?thesis
        proof (cases "clear_double_move b1 val (fst p) (snd p)")
          case (Inl e)
          from assms True show ?thesis unfolding pair_step_def lk cm
            by (auto simp: Let_def Inl split: if_splits)
        next
          case (Inr b2)
          from assms True have "ok = ok1 \<and>
            st' = \<lparr>board = b2, matches = 1, final_src = Some (fst p), final_dst = Some (snd p),
              found_match = True\<rparr>"
            unfolding pair_step_def lk cm by (auto simp: Let_def Inr split: if_splits)
          with lk cm True Inr show ?thesis using first by blast
        qed
      qed
    qed
  qed
qed

lemma pair_step_matches:
  "pair_step val p st = Inr (ok, st') \<Longrightarrow> matches st' = matches st + (if ok then 1 else 0)"
  by (erule pair_step_cases) auto

text \<open>\<^verbatim>\<open>found_match\<close> is set exactly when \<^verbatim>\<open>matches\<close> is not zero.\<close>

definition consistent :: "loop_state \<Rightarrow> bool" where
  "consistent st = (found_match st \<longleftrightarrow> matches st \<noteq> 0)"

lemma pair_step_False:
  "pair_step val p st = Inr (False, st') \<Longrightarrow> consistent st \<Longrightarrow> st' = st"
  by (erule pair_step_cases) (auto simp: consistent_def dest: can_move_False)

lemma pair_step_first:
  assumes "pair_step val p st = Inr (True, st')" "matches st = 0" "\<not> found_match st"
  shows "\<exists>b1 b2. is_locked (board st) (fst p) (snd p) (nm_capture val) (nm_is_white_move val) = Inr False \<and>
     can_move (board st) (nm_piece val) (fst p) (snd p) (nm_capture val) (nm_is_white_move val) = Inr (True, b1) \<and>
     clear_double_move b1 val (fst p) (snd p) = Inr b2 \<and>
     st' = \<lparr>board = b2, matches = 1, final_src = Some (fst p), final_dst = Some (snd p), found_match = True\<rparr>"
  using assms(1)
  by (rule pair_step_cases) (use assms(2,3) in auto)

lemma pair_loop_mono:
  "pair_loop val ps st = Inr st' \<Longrightarrow> matches st \<le> matches st'"
proof (induction ps arbitrary: st)
  case Nil
  then show ?case by simp
next
  case (Cons p ps)
  from Cons.prems obtain ok st1 where 1: "pair_step val p st = Inr (ok, st1)"
    and 2: "pair_loop val ps st1 = Inr st'"
    by (auto split: sum.splits)
  from pair_step_matches[OF 1] Cons.IH[OF 2] show ?case by simp
qed

lemma pair_loop_after:
  "pair_loop val ps st = Inr st' \<Longrightarrow> consistent st \<Longrightarrow> matches st = 1 \<Longrightarrow> matches st' = 1 \<Longrightarrow> st' = st"
proof (induction ps arbitrary: st)
  case Nil
  then show ?case by simp
next
  case (Cons p ps)
  from Cons.prems(1) obtain ok st1 where 1: "pair_step val p st = Inr (ok, st1)"
    and 2: "pair_loop val ps st1 = Inr st'"
    by (auto split: sum.splits)
  from pair_step_matches[OF 1] pair_loop_mono[OF 2] Cons.prems(3,4) have "\<not> ok"
    by (auto split: if_splits)
  with 1 Cons.prems(2) have "st1 = st" by (auto dest: pair_step_False)
  with Cons.IH[OF 2[unfolded this]] Cons.prems show ?case by simp
qed

text \<open>
  A loop that ends with \<^verbatim>\<open>matches == 1\<close> has met exactly one legal pair: the board
  changed at that pair only, and \<^verbatim>\<open>final_src\<close>, \<^verbatim>\<open>final_dst\<close> are that pair.
\<close>

lemma pair_loop_unique:
  assumes "pair_loop val ps st = Inr st'" "matches st = 0" "\<not> found_match st" "matches st' = 1"
  shows "\<exists>p\<in>set ps. \<exists>b1 b2.
     is_locked (board st) (fst p) (snd p) (nm_capture val) (nm_is_white_move val) = Inr False \<and>
     can_move (board st) (nm_piece val) (fst p) (snd p) (nm_capture val) (nm_is_white_move val) = Inr (True, b1) \<and>
     clear_double_move b1 val (fst p) (snd p) = Inr b2 \<and>
     st' = \<lparr>board = b2, matches = 1, final_src = Some (fst p), final_dst = Some (snd p), found_match = True\<rparr>"
  using assms
proof (induction ps arbitrary: st)
  case Nil
  then show ?case by simp
next
  case (Cons p ps)
  from Cons.prems(1) obtain ok st1 where 1: "pair_step val p st = Inr (ok, st1)"
    and 2: "pair_loop val ps st1 = Inr st'"
    by (auto split: sum.splits)
  have cons: "consistent st" using Cons.prems by (simp add: consistent_def)
  show ?case
  proof (cases ok)
    case False
    with 1 cons have "st1 = st" by (auto dest: pair_step_False)
    with Cons.IH[OF 2[unfolded this]] Cons.prems show ?thesis by auto
  next
    case True
    from 1 True have one: "pair_step val p st = Inr (True, st1)" by simp
    from pair_step_first[OF one Cons.prems(2,3)] obtain b1 b2 where
      s: "is_locked (board st) (fst p) (snd p) (nm_capture val) (nm_is_white_move val) = Inr False"
        "can_move (board st) (nm_piece val) (fst p) (snd p) (nm_capture val) (nm_is_white_move val) = Inr (True, b1)"
        "clear_double_move b1 val (fst p) (snd p) = Inr b2"
        "st1 = \<lparr>board = b2, matches = 1, final_src = Some (fst p), final_dst = Some (snd p), found_match = True\<rparr>"
      by blast
    from s(4) have "consistent st1" "matches st1 = 1" by (simp_all add: consistent_def)
    from pair_loop_after[OF 2 this Cons.prems(4)] have "st' = st1" .
    with s show ?thesis by auto
  qed
qed

text \<open>What a NextMove descriptor that is applied has done.\<close>

lemma apply_NextMove_success:
  assumes "apply_NextMove b val = Inr b'"
  shows "\<exists>src dst b1 b2 dsts.
     nm_piece val \<noteq> CHR 0x00 \<and> hints_in_range val \<and>
     dst_candidates b val = Inr dsts \<and> src \<in> set (src_candidates b val) \<and> dst \<in> set dsts \<and>
     is_locked b src dst (nm_capture val) (nm_is_white_move val) = Inr False \<and>
     can_move b (nm_piece val) src dst (nm_capture val) (nm_is_white_move val) = Inr (True, b1) \<and>
     clear_double_move b1 val src dst = Inr b2 \<and>
     b' = finish_move b2 val src dst"
proof -
  from assms have a: "nm_piece val \<noteq> CHR 0x00" "hints_in_range val"
    by (auto simp: apply_NextMove_def INTERNAL_ASSERT_def split: if_splits)
  from assms a obtain dsts where d: "dst_candidates b val = Inr dsts"
    by (auto simp: apply_NextMove_def INTERNAL_ASSERT_def split: if_splits sum.splits)
  from assms a d obtain st where
    l: "pair_loop val (List.product (src_candidates b val) dsts) (loop_start b) = Inr st"
    by (auto simp: apply_NextMove_def INTERNAL_ASSERT_def split: if_splits sum.splits)
  from assms a d l have m: "matches st = 1"
    by (auto simp: apply_NextMove_def INTERNAL_ASSERT_def split: if_splits)
  from assms a d l m have f:
    "(case (final_src st, final_dst st) of
        (Some src, Some dst) \<Rightarrow> Inr (finish_move (board st) val src dst)
      | _ \<Rightarrow> Inl UndefinedBehaviour) = Inr b'"
    by (auto simp: apply_NextMove_def INTERNAL_ASSERT_def split: if_splits)
  have "matches (loop_start b) = 0" "\<not> found_match (loop_start b)" "board (loop_start b) = b"
    by (simp_all add: loop_start_def)
  from pair_loop_unique[OF l this(1,2) m] this(3) obtain p b1 b2 where
    p: "p \<in> set (List.product (src_candidates b val) dsts)"
      "is_locked b (fst p) (snd p) (nm_capture val) (nm_is_white_move val) = Inr False"
      "can_move b (nm_piece val) (fst p) (snd p) (nm_capture val) (nm_is_white_move val) = Inr (True, b1)"
      "clear_double_move b1 val (fst p) (snd p) = Inr b2"
      "st = \<lparr>board = b2, matches = 1, final_src = Some (fst p), final_dst = Some (snd p), found_match = True\<rparr>"
    by auto
  from f p(5) have fin: "b' = finish_move b2 val (fst p) (snd p)" by simp
  from p(1) have "fst p \<in> set (src_candidates b val)" "snd p \<in> set dsts" by auto
  with a d p(2,3,4) fin show ?thesis by blast
qed














section \<open>Recursive annotation variations\<close>





text \<open>The replay of a stream is the loop over its tokens.\<close>

lemma replay_tokens: "tokens s = Inr ts \<Longrightarrow> replay s p b = run_tokens p b ts"
proof (induction s arbitrary: ts p b rule: tokens.induct)
  case (1 s)
  show ?case
  proof (cases "scan_token s")
    case (Inl e)
    with "1.prems" show ?thesis by (simp add: tokens.simps)
  next
    case (Inr res)
    show ?thesis
    proof (cases res)
      case None
      with Inr "1.prems" show ?thesis by (simp add: tokens.simps replay.simps)
    next
      case (Some ts1)
      obtain t s' where ts1: "ts1 = (t, s')" by (cases ts1)
      from Inr Some ts1 "1.prems" obtain ts' where ts': "tokens s' = Inr ts'" "ts = t # ts'"
        by (auto simp: tokens.simps[of s] split: sum.splits)
      from Inr Some ts1 have sc: "scan_token s = Inr (Some (t, s'))" by simp
      have IH: "\<And>p b. replay s' p b = run_tokens p b ts'"
        using "1.IH"[OF Inr Some ts1[symmetric] ts'(1)] by simp
      show ?thesis
        unfolding replay.simps[of s] sc ts'(2)
        by (simp add: IH split: sum.splits option.splits prod.splits)
    qed
  qed
qed















lemmas scanner_defs = tokens.simps scan_token_def scan_body_def visit_accept_def new_token_def
  is_token_separator_def TokenScanner_def isdigit_def isalpha_def isprint_def code_def
  is_symbol_char_def SymbolToken_accept_def PeriodToken_accept_def BraceComment_accept_def
  LineComment_accept_def EscapeToken_accept_def StringToken_accept_def
  NumericGlyphToken_accept_def

lemmas parser_defs = consume_token_def INTERNAL_ASSERT_def has_emit_move_def emit_move_def
  new_PGNParser_def Let_def















section \<open>The double-move flag\<close>




text \<open>The two invariants: where a flag can be (row 4 is rank 4, row 3 is rank 5), and on what.\<close>

definition flags_on_rows :: "Board \<Rightarrow> bool" where
  "flags_on_rows b = (\<forall>c. double_move (b c) \<longrightarrow> fst c = 3 \<or> fst c = 4)"


text \<open>What a legal pair leaves outside its destination, and where it can set the flag.\<close>

definition keeps_flags :: "Board \<Rightarrow> Board \<Rightarrow> int \<times> int \<Rightarrow> int \<times> int \<Rightarrow> bool" where
  "keeps_flags b b1 src dst =
     (src \<noteq> dst \<and> (\<forall>c. c \<noteq> dst \<and> double_move (b1 c) \<longrightarrow> b1 c = b c) \<and>
      (double_move (b1 dst) \<longrightarrow> (fst dst = 3 \<or> fst dst = 4) \<and>
         (double_move (b dst) \<or> piece (b dst) = CHR ''.'')) \<and>
      (double_move (b1 dst) \<and> double_move (b dst) \<longrightarrow> b1 dst = b dst))"

lemma flags_on_rowsD: "flags_on_rows b \<Longrightarrow> double_move (b c) \<Longrightarrow> fst c = 3 \<or> fst c = 4"
  unfolding flags_on_rows_def by blast


lemma can_move_pawn_keeps:
  assumes "can_move_pawn b src dst capture w = Inr (True, b1)" "flags_on_rows b"
  shows "keeps_flags b b1 src dst"
proof (cases capture)
  case True
  show ?thesis
  proof (cases "piece (b dst) = CHR ''.''")
    case e: True
    from assms(1) True e have g: "(if w then fst src - fst dst else fst dst - fst src) = 1"
      "\<bar>snd dst - snd src\<bar> = 1"
      by (auto simp: can_move_pawn_def Let_def INTERNAL_ASSERT_def split: if_splits)
    with assms(1) True e have b1: "b1 = b((fst src, snd dst) :=
        (b (fst src, snd dst))\<lparr>piece := CHR ''.'', double_move := False\<rparr>)"
      by (auto simp: can_move_pawn_def Let_def INTERNAL_ASSERT_def split: if_splits)
    from g have ne: "src \<noteq> dst" "(fst src, snd dst) \<noteq> dst"
      by (auto simp: prod_eq_iff split: if_splits)
    with b1 assms(2) show ?thesis by (auto simp: keeps_flags_def dest: flags_on_rowsD)
  next
    case ne: False
    from assms(1) True ne have "b1 = b" "(if w then fst src - fst dst else fst dst - fst src) = 1"
      by (auto simp: can_move_pawn_def Let_def INTERNAL_ASSERT_def split: if_splits)
    then have "b1 = b" "src \<noteq> dst" by (auto split: if_splits)
    with assms(2) show ?thesis by (auto simp: keeps_flags_def dest: flags_on_rowsD)
  qed
next
  case False
  let ?dx = "if w then fst src - fst dst else fst dst - fst src"
  show ?thesis
  proof (cases "?dx = 2")
    case True
    with assms(1) False have f: "(if w then r CHR ''2'' = fst src else r CHR ''7'' = fst src)"
      "\<bar>snd dst - snd src\<bar> = 0"
      "is_free_cell b (fst src + (if w then -1 else 1) + (if w then -1 else 1), snd src)"
      "b1 = b(dst := (b dst)\<lparr>double_move := True\<rparr>)"
      by (auto simp: can_move_pawn_def Let_def split: if_splits)
    from f(1,2) True have d: "dst = (fst src + (if w then -1 else 1) + (if w then -1 else 1), snd src)"
      "fst dst = 3 \<or> fst dst = 4" "src \<noteq> dst"
      by (auto simp: prod_eq_iff r_values split: if_splits)
    from f(3) d(1) have "piece (b dst) = CHR ''.''" by (simp add: is_free_cell_def)
    with f(4) d show ?thesis by (auto simp: keeps_flags_def)
  next
    case nd: False
    with assms(1) False have "b1 = b" "?dx = 1" "is_valid_dest b dst capture w"
      by (auto simp: can_move_pawn_def Let_def split: if_splits)
    with False have "b1 = b" "src \<noteq> dst" "piece (b dst) = CHR ''.''"
      by (auto simp: is_valid_dest_def split: if_splits)
    with assms(2) show ?thesis by (auto simp: keeps_flags_def dest: flags_on_rowsD)
  qed
qed

lemma can_move_other_facts:
  assumes "can_move b pc src dst capture w = Inr (True, b1)" "pc \<noteq> CHR ''P''"
  shows "b1 = b \<and> src \<noteq> dst \<and> is_valid_dest b dst capture w"
proof -
  from assms have b1: "b1 = b" by (auto simp: can_move_def split: if_splits)
  from assms have "can_move_rook b src dst capture w \<or> can_move_bishop b src dst capture w \<or>
      can_move_knight b src dst capture w \<or> can_move_king b src dst capture w"
    by (auto simp: can_move_def can_move_queen_def split: if_splits)
  then have "src \<noteq> dst \<and> is_valid_dest b dst capture w"
    by (auto simp: can_move_rook_def can_move_bishop_def can_move_knight_def can_move_king_def
        Let_def split: if_splits)
  with b1 show ?thesis by simp
qed

lemma can_move_keeps:
  assumes "can_move b pc src dst capture w = Inr (True, b1)" "flags_on_rows b"
  shows "keeps_flags b b1 src dst"
proof (cases "pc = CHR ''P''")
  case True
  with assms show ?thesis by (auto simp: can_move_def intro: can_move_pawn_keeps)
next
  case False
  from can_move_other_facts[OF assms(1) False] assms(2) show ?thesis
    by (auto simp: keeps_flags_def dest: flags_on_rowsD)
qed

lemma clear_finish_cells:
  assumes "clear_double_move b1 val src dst = Inr b2" "b' = finish_move b2 val src dst" "src \<noteq> dst"
  shows "c \<noteq> src \<Longrightarrow> c \<noteq> dst \<Longrightarrow> b' c = b1 c"
    and "piece (b' src) = CHR ''.''"
    and "double_move (b' src) \<Longrightarrow> double_move (b1 src) \<and> nm_piece val \<noteq> CHR ''P''"
    and "double_move (b' dst) \<Longrightarrow>
            double_move (b1 dst) \<and> (nm_piece val = CHR ''P'' \<or> \<not> nm_capture val)"
    and "piece (b' dst) = (case nm_promote_piece val of Some q \<Rightarrow> q | None \<Rightarrow> nm_piece val)"
  using assms
  by (auto simp: clear_double_move_def finish_move_def Let_def INTERNAL_ASSERT_def
      split: if_splits)

lemma keeps_flagsD:
  assumes "keeps_flags b b1 src dst"
  shows "src \<noteq> dst"
    and "c \<noteq> dst \<Longrightarrow> double_move (b1 c) \<Longrightarrow> b1 c = b c"
    and "double_move (b1 dst) \<Longrightarrow> fst dst = 3 \<or> fst dst = 4"
    and "double_move (b1 dst) \<Longrightarrow> double_move (b dst) \<or> piece (b dst) = CHR ''.''"
  using assms unfolding keeps_flags_def by blast+



lemma NextMove_rows:
  assumes "apply_NextMove b val = Inr b'" "flags_on_rows b"
  shows "flags_on_rows b'"
proof -
  from apply_NextMove_success[OF assms(1)] obtain src dst b1 b2 where
    s: "can_move b (nm_piece val) src dst (nm_capture val) (nm_is_white_move val) = Inr (True, b1)"
       "clear_double_move b1 val src dst = Inr b2" "b' = finish_move b2 val src dst"
    by blast
  from can_move_keeps[OF s(1) assms(2)] have k: "keeps_flags b b1 src dst" .
  note kd = keeps_flagsD[OF k]
  note cf = clear_finish_cells[OF s(2,3) kd(1)]
  show ?thesis
    unfolding flags_on_rows_def
  proof (intro allI impI)
    fix c assume d: "double_move (b' c)"
    show "fst c = 3 \<or> fst c = 4"
    proof (cases "c = dst")
      case True
      with d cf(4) have "double_move (b1 dst)" by simp
      with kd(3) True show ?thesis by simp
    next
      case False
      have d1: "double_move (b1 c)"
      proof (cases "c = src")
        case True
        with d cf(3) show ?thesis by simp
      next
        case ns: False
        with d cf(1)[OF ns False] show ?thesis by simp
      qed
      with kd(2)[OF False] have "double_move (b c)" by simp
      with assms(2) show ?thesis by (rule flags_on_rowsD)
    qed
  qed
qed


lemma castling_cells:
  assumes "apply_QueenCastling b w = Inr b' \<or> apply_KingCastling b w = Inr b'" "flags_on_rows b"
    "double_move (b' c)"
  shows "b' c = b c"
proof -
  have no: "\<And>k. \<not> double_move (b (7, k))" "\<And>k. \<not> double_move (b (0, k))"
    using flags_on_rowsD[OF assms(2)] by fastforce+
  from assms(1,3) show ?thesis
    by (auto simp: apply_QueenCastling_def apply_KingCastling_def INTERNAL_ASSERT_def
        move_cell_def Let_def r_values f_values no split: if_splits)
qed

lemma apply_move_rows:
  assumes "apply_move b mv = Inr b'" "flags_on_rows b"
  shows "flags_on_rows b'"
proof (cases mv)
  case (Next val)
  with assms show ?thesis by (auto intro: NextMove_rows)
next
  case (KingCastling w)
  with assms castling_cells[of b w b'] show ?thesis
    unfolding flags_on_rows_def by (metis apply_move.simps(4))
next
  case (QueenCastling w)
  with assms castling_cells[of b w b'] show ?thesis
    unfolding flags_on_rows_def by (metis apply_move.simps(2))
next
  case (Finish m)
  with assms show ?thesis by simp
next
  case Ignore
  with assms show ?thesis by simp
qed





lemma run_tokens_rows:
  "run_tokens p b ts = Inr b' \<Longrightarrow> flags_on_rows b \<Longrightarrow> flags_on_rows b'"
proof (induction ts arbitrary: p b)
  case Nil
  then show ?case by simp
next
  case (Cons t ts)
  from Cons.prems(1) obtain p1 out where 1: "consume_token p t = Inr (p1, out)"
    by (auto split: sum.splits)
  show ?case
  proof (cases out)
    case None
    with 1 Cons.prems(1) have "run_tokens p1 b ts = Inr b'" by simp
    from Cons.IH[OF this Cons.prems(2)] show ?thesis .
  next
    case (Some a)
    show ?thesis
    proof (cases "is_Finish a")
      case True
      with 1 Some Cons.prems show ?thesis by simp
    next
      case False
      with Some 1 Cons.prems(1) obtain b1 where 2: "apply_move b a = Inr b1"
        and 3: "run_tokens p1 b1 ts = Inr b'"
        by (auto split: if_splits sum.splits)
      from Cons.IH[OF 3 apply_move_rows[OF 2 Cons.prems(2)]] show ?thesis .
    qed
  qed
qed






















section \<open>Valid landing squares\<close>

text \<open>On an occupied square, and for a move that is not a capture, the test is as the spec says.\<close>

lemma is_valid_dest_occupied:
  "piece (b dst) \<noteq> CHR ''.'' \<Longrightarrow>
   is_valid_dest b dst True w = (is_white (b dst) \<noteq> w \<and> piece (b dst) \<noteq> CHR ''K'')"
  "is_valid_dest b dst False w = (piece (b dst) = CHR ''.'')"
  by (auto simp: is_valid_dest_def)

text \<open>The text \<^verbatim>\<open>1. Nxf3\<close> on the starting position: a capture onto the empty f3.\<close>

definition san_Nxf3 :: NextMove where
  "san_Nxf3 = \<lparr>nm_piece = CHR ''N'', nm_is_white_move = True,
   nm_capture = True, nm_check = False, nm_checkmate = False, nm_src = \<lparr>cx = None, cy = None\<rparr>,
   nm_dst = \<lparr>cx = Some 5, cy = Some 5\<rparr>, nm_promote_piece = None, nm_orig_token = ''Nxf3''\<rparr>"

definition board_Nxf3 :: Board where
  "board_Nxf3 = ChessBoard((7, 6) := \<lparr>is_white = True, piece = CHR ''.'', double_move = False\<rparr>,
                           (5, 5) := \<lparr>is_white = True, piece = CHR ''N'', double_move = False\<rparr>)"

lemma factory_Nxf3: "MoveFactory ''Nxf3'' True = Inr (Next san_Nxf3)"
  by (simp add: factory_defs san_Nxf3_def)

lemma apply_Nxf3: "apply_NextMove ChessBoard san_Nxf3 = Inr board_Nxf3"
  apply (simp add: board_defs san_Nxf3_def ChessBoard_cell high_rank_def empty_cell_def)
  apply (auto simp: fun_eq_iff board_Nxf3_def ChessBoard_cell high_rank_def empty_cell_def)
  done

lemma tokens_Nxf3:
  "tokens (TokenScanner ''1. Nxf3 '') = Inr [IntegerToken ''1'', PeriodToken, SymbolToken ''Nxf3'' False]"
  by (simp add: scanner_defs)

lemma replay_Nxf3: "replay_pgn ''1. Nxf3 '' = Inr board_Nxf3"
  unfolding replay_pgn_def replay_tokens[OF tokens_Nxf3]
  by (simp add: parser_defs factory_Nxf3 apply_Nxf3)

text \<open>
  C6 at a failing input: on the starting position the square f3 (row 5, column 5) is
  empty, and \<^verbatim>\<open>is_valid_dest\<close> accepts it as the landing square of a capture by
  white. The capture branch compares the colour flag of the cell and never looks at
  whether the cell holds a piece; \<^verbatim>\<open>clear()\<close> leaves the flag of an empty cell false.
  So the replay of \<^verbatim>\<open>1. Nxf3\<close> moves the knight to f3 where nothing is captured.
\<close>

theorem C6_capture_onto_empty_square:
  "piece (ChessBoard (5, 5)) = CHR ''.'' \<and> is_valid_dest ChessBoard (5, 5) True True \<and>
   replay_pgn ''1. Nxf3 '' = Inr board_Nxf3 \<and>
   board_Nxf3 (5, 5) = \<lparr>is_white = True, piece = CHR ''N'', double_move = False\<rparr>"
  using replay_Nxf3
  by (simp add: is_valid_dest_def ChessBoard_cell empty_cell_def board_Nxf3_def)

section \<open>STAR inside a header\<close>

lemma tokens_star:
  "tokens (TokenScanner ''[*'') = Inr [LeftBraceToken, AsterkixToken]"
  "tokens (TokenScanner ''[Event *'') = Inr [LeftBraceToken, SymbolToken ''Event'' False, AsterkixToken]"
  by (simp_all add: scanner_defs)

lemma replay_star:
  "replay_pgn ''[*'' = Inl RuntimeError"
  "replay_pgn ''[Event *'' = Inr ChessBoard"
  unfolding replay_pgn_def replay_tokens[OF tokens_star(1)] replay_tokens[OF tokens_star(2)]
  by (simp_all add: parser_defs)

text \<open>
  C8 at a failing input: in the state \<^verbatim>\<open>ParsingLeftBracket\<close> (after \<^verbatim>\<open>[\<close>) a STAR
  atom is a grammar error, while in the next state of a header
  (\<^verbatim>\<open>ParsingHeaderName\<close>) it leads to \<^verbatim>\<open>Finished\<close>: the text \<^verbatim>\<open>[*\<close> is refused
  and the text \<^verbatim>\<open>[Event *\<close> ends the game on the starting position.
\<close>

theorem C8_star_after_left_bracket:
  "consume_token \<lparr>state = ParsingLeftBracket, paranthesis_count = 0, white_turn = False\<rparr>
      AsterkixToken = Inl RuntimeError \<and>
   consume_token \<lparr>state = ParsingHeaderName, paranthesis_count = 0, white_turn = False\<rparr>
      AsterkixToken =
     Inr (\<lparr>state = Finished, paranthesis_count = 0, white_turn = False\<rparr>, Some (Finish MANUAL)) \<and>
   replay_pgn ''[*'' = Inl RuntimeError \<and> replay_pgn ''[Event *'' = Inr ChessBoard"
  using replay_star by (simp add: consume_token_def INTERNAL_ASSERT_def)

text \<open>In the ten states with a registered transition, STAR does lead to \<^verbatim>\<open>Finished\<close>.\<close>

lemma star_registered:
  "st \<noteq> ParsingLeftBracket \<Longrightarrow> st \<noteq> Finished \<Longrightarrow> 0 \<le> n \<Longrightarrow>
   consume_token \<lparr>state = st, paranthesis_count = n, white_turn = w\<rparr> AsterkixToken =
     Inr (\<lparr>state = Finished, paranthesis_count = n, white_turn = w\<rparr>,
          if n > 0 then None else Some (Finish MANUAL))"
  by (cases st) (simp_all add: consume_token_def INTERNAL_ASSERT_def)

end
